theory Spec2Isabelle
  imports Main "HOL-Library.Word"
begin

section \<open>TSDL identifier escaping (tsdl-trace-class-visitor.cpp)\<close>

text \<open>
  \<^verbatim>\<open>safe_tsdl_identifiers\<close> is a \<^verbatim>\<open>std::set<std::string>\<close> that the code only
  tests for membership; the list keeps the order of the initialiser.
\<close>

definition safe_tsdl_identifiers :: "string list" where
  "safe_tsdl_identifiers =
     [''stream_id'', ''packet_size'', ''content_size'', ''id'', ''v'', ''timestamp'',
      ''events_discarded'', ''packet_seq_num'', ''timestamp_begin'', ''timestamp_end'',
      ''cpu_id'', ''magic'', ''uuid'', ''stream_instance_id'']"

text \<open>
  \<^verbatim>\<open>std::isalnum(c, std::locale{"C"})\<close>: in the C locale the alphanumeric
  characters are the ASCII digits and the ASCII letters of both cases.
\<close>

definition isalnum_c :: "char \<Rightarrow> bool" where
  "isalnum_c c =
     (let n = (of_char c :: nat)
      in (48 \<le> n \<and> n \<le> 57) \<or> (65 \<le> n \<and> n \<le> 90) \<or> (97 \<le> n \<and> n \<le> 122))"

text \<open>
  The only failure of the escaping function: \<^verbatim>\<open>LTTNG_THROW_ERROR("Invalid 0-length
  identifier used in trace description")\<close>.
\<close>

datatype tsdl_error = InvalidIdentifier

text \<open>
  The body of the range-based \<^verbatim>\<open>for\<close> loop: one character is appended to
  \<^verbatim>\<open>new_identifier\<close> per character of the input.
\<close>

fun replace_illegal :: "string \<Rightarrow> string \<Rightarrow> string" where
  "replace_illegal new_identifier [] = new_identifier"
| "replace_illegal new_identifier (current_char # rest) =
     (if \<not> isalnum_c current_char \<and> current_char \<noteq> CHR ''_''
      then replace_illegal (new_identifier @ [CHR ''_'']) rest
      else replace_illegal (new_identifier @ [current_char]) rest)"

definition escape_tsdl_identifier :: "string \<Rightarrow> tsdl_error + string" where
  "escape_tsdl_identifier original_identifier =
     (if length original_identifier = 0 then Inl InvalidIdentifier
      else if original_identifier \<in> set safe_tsdl_identifiers then Inr original_identifier
      else Inr (replace_illegal ''_'' original_identifier))"

text \<open>The spec's wording of the replacement, character by character.\<close>

definition underscore_illegal :: "char \<Rightarrow> char" where
  "underscore_illegal c = (if isalnum_c c \<or> c = CHR ''_'' then c else CHR ''_'')"

definition tsdl_identifier_chars :: string where
  "tsdl_identifier_chars =
     ''0123456789ABCDEFGHIJKLMNOPQRSTUVWXYZabcdefghijklmnopqrstuvwxyz_''"

section \<open>Relay daemon: objects and state (ctf-trace.cpp, viewer-session.cpp)\<close>

text \<open>
  Objects live in a store and are named by their addresses. A C pointer that may be
  \<^verbatim>\<open>NULL\<close> is an \<open>option\<close>.
\<close>

type_synonym trace_ptr = nat
type_synonym session_ptr = nat
type_synonym stream_ptr = nat
type_synonym vstream_ptr = nat
type_synonym vsession_ptr = nat
type_synonym chunk_ptr = nat

text \<open>
  What stops the program instead of returning: a failed \<^verbatim>\<open>LTTNG_ASSERT\<close>, a read
  through a null pointer, a read through a pointer to no live object, and a
  \<^verbatim>\<open>pthread_mutex_lock\<close> on a mutex that is already held.
\<close>

datatype fault = AssertionFailure | NullDereference | InvalidPointer | Deadlock

text \<open>
  \<^verbatim>\<open>struct ctf_trace\<close>, with the fields ctf-trace.cpp reads and writes (the
  declaration, ctf-trace.hpp, is not among the sources). \<open>trace_ref\<close> is the count of
  \<^verbatim>\<open>ref\<close>; \<open>trace_session\<close>, \<open>trace_path\<close> and \<open>trace_id\<close> are
  \<^verbatim>\<open>session\<close>, \<open>path\<close> and \<open>id\<close>;
  \<open>trace_node\<close> is the key of the embedded hash-table node (\<open>None\<close> until
  \<^verbatim>\<open>lttng_ht_node_init_str\<close>); \<open>stream_list\<close> is \<open>None\<close> while the list head
  is still zeroed (its \<^verbatim>\<open>next\<close> is null, so \<^verbatim>\<open>cds_list_empty\<close> is false) and
  \<open>Some\<close> of the linked streams after \<^verbatim>\<open>CDS_INIT_LIST_HEAD\<close>. The two mutexes of
  the structure are initialised and never taken by the functions below; they are left
  out.
\<close>

record ctf_trace =
  trace_ref :: nat
  trace_session :: "session_ptr option"
  trace_path :: "string option"
  trace_id :: "64 word"
  stream_list :: "stream_ptr list option"
  viewer_metadata_stream :: "vstream_ptr option"
  trace_node :: "string option"

text \<open>
  \<^verbatim>\<open>struct relay_session\<close>, with the fields the functions below read or write
  (the declaration, session.hpp, is not among the sources). \<open>session_ref\<close> is the
  count of \<^verbatim>\<open>ref\<close>. \<open>ctf_traces_ht\<close> lists the nodes of the hash table, each as its key and the trace
  that embeds it. \<open>session_lock\<close> says whether \<^verbatim>\<open>session->lock\<close> is held.
\<close>

record relay_session =
  session_ref :: nat
  ctf_traces_ht :: "(string \<times> trace_ptr) list"
  viewer_attached :: bool
  current_trace_chunk :: "chunk_ptr option"
  session_lock :: bool

text \<open>
  \<^verbatim>\<open>struct relay_viewer_session\<close>: \<open>viewer_trace_chunk\<close> is its
  \<^verbatim>\<open>current_trace_chunk\<close>, \<open>session_list\<close> the relay sessions linked in its list,
  the head first.
\<close>

record relay_viewer_session =
  viewer_trace_chunk :: "chunk_ptr option"
  session_list :: "session_ptr list"

text \<open>
  Modelled from the spec: the readiness of a relay stream
  (\<^verbatim>\<open>struct relay_stream\<close>, stream.cpp, is not among the sources), the state
  machine of section 4.3.
\<close>

datatype readiness = Allocated | Indexed | Ready | Closing | Destroyed

record relay_stream =
  stream_state :: readiness

text \<open>
  Modelled from the spec: \<^verbatim>\<open>struct relay_viewer_stream\<close> (viewer-stream.hpp and
  viewer-stream.cpp are not among the sources), of which only the reference count is
  read here.
\<close>

record relay_viewer_stream =
  vstream_ref :: nat

text \<open>
  The state of the process. \<open>traces\<close> is the allocation table of the
  \<^verbatim>\<open>ctf_trace\<close> objects: the address of a trace is its index, \<open>None\<close> marks
  freed memory, and \<^verbatim>\<open>zmalloc\<close> extends the table (an address is not handed out
  twice). \<open>rcu_read_nesting\<close> counts the read-side critical sections the running thread
  is in; \<open>rcu_callbacks\<close> are the traces handed to \<^verbatim>\<open>call_rcu\<close> whose
  \<^verbatim>\<open>rcu_destroy_ctf_trace\<close> has not run yet.
\<close>

record relay_state =
  traces :: "ctf_trace option list"
  sessions :: "session_ptr \<rightharpoonup> relay_session"
  streams :: "stream_ptr \<rightharpoonup> relay_stream"
  viewer_streams :: "vstream_ptr \<rightharpoonup> relay_viewer_stream"
  viewer_sessions :: "vsession_ptr \<rightharpoonup> relay_viewer_session"
  last_relay_ctf_trace_id :: "64 word"
  rcu_read_nesting :: nat
  rcu_callbacks :: "trace_ptr list"

text \<open>
  What the environment decides: whether \<^verbatim>\<open>zmalloc\<close> and \<^verbatim>\<open>strdup\<close> find
  memory, and what \<^verbatim>\<open>lttng_trace_chunk_copy\<close> returns (\<open>None\<close> is its null
  result).
\<close>

record environment =
  zmalloc_succeeds :: bool
  strdup_succeeds :: bool
  lttng_trace_chunk_copy :: "chunk_ptr \<Rightarrow> chunk_ptr option"

definition trace_at :: "relay_state \<Rightarrow> trace_ptr \<Rightarrow> ctf_trace option" where
  "trace_at s trace = (if trace < length (traces s) then traces s ! trace else None)"

definition set_trace :: "trace_ptr \<Rightarrow> ctf_trace \<Rightarrow> relay_state \<Rightarrow> relay_state" where
  "set_trace trace tr s = s\<lparr>traces := (traces s)[trace := Some tr]\<rparr>"

definition set_session :: "session_ptr \<Rightarrow> relay_session \<Rightarrow> relay_state \<Rightarrow> relay_state" where
  "set_session sp se s = s\<lparr>sessions := (sessions s)(sp \<mapsto> se)\<rparr>"

subsection \<open>The reference count and RCU primitives\<close>

text \<open>
  Modelled from the spec: \<^verbatim>\<open>urcu_ref_init\<close>, \<^verbatim>\<open>urcu_ref_get_unless_zero\<close> and
  \<^verbatim>\<open>urcu_ref_put\<close> (liburcu, not among the sources), as the spec's section 4.1
  words them: a new count is 1; acquiring is an increment unless the count is zero;
  releasing decrements and reports whether zero was reached. The count is a natural
  number: releasing a count of zero is the failed assertion of \<^verbatim>\<open>urcu_ref_put\<close>
  (\<open>None\<close>), and the width of the C \<^verbatim>\<open>long\<close> is outside the model.
\<close>

definition urcu_ref_init :: nat where
  "urcu_ref_init = 1"

definition urcu_ref_get_unless_zero :: "nat \<Rightarrow> bool \<times> nat" where
  "urcu_ref_get_unless_zero refcount =
     (if refcount = 0 then (False, refcount) else (True, refcount + 1))"

definition urcu_ref_put :: "nat \<Rightarrow> nat option" where
  "urcu_ref_put refcount = (if refcount = 0 then None else Some (refcount - 1))"

text \<open>
  Modelled from the spec: \<^verbatim>\<open>rcu_read_lock\<close>, \<^verbatim>\<open>rcu_read_unlock\<close> and
  \<^verbatim>\<open>call_rcu\<close> (liburcu, not among the sources): a read-side critical section
  holds destructors off, and a destructor handed to \<^verbatim>\<open>call_rcu\<close> runs after the
  current epoch ends. \<open>rcu_grace_period\<close> is the end of an epoch as the running thread
  sees it: outside every read-side critical section, the pending callbacks run.
\<close>

definition rcu_read_lock :: "relay_state \<Rightarrow> relay_state" where
  "rcu_read_lock s = s\<lparr>rcu_read_nesting := rcu_read_nesting s + 1\<rparr>"

definition rcu_read_unlock :: "relay_state \<Rightarrow> relay_state" where
  "rcu_read_unlock s = s\<lparr>rcu_read_nesting := rcu_read_nesting s - 1\<rparr>"

definition call_rcu :: "trace_ptr \<Rightarrow> relay_state \<Rightarrow> relay_state" where
  "call_rcu trace s = s\<lparr>rcu_callbacks := rcu_callbacks s @ [trace]\<rparr>"

definition rcu_destroy_ctf_trace :: "trace_ptr \<Rightarrow> relay_state \<Rightarrow> relay_state" where
  "rcu_destroy_ctf_trace trace s = s\<lparr>traces := (traces s)[trace := None]\<rparr>"

definition rcu_grace_period :: "relay_state \<Rightarrow> relay_state" where
  "rcu_grace_period s =
     (if rcu_read_nesting s = 0
      then (fold rcu_destroy_ctf_trace (rcu_callbacks s) s)\<lparr>rcu_callbacks := []\<rparr>
      else s)"

subsection \<open>The hash table of a session's traces\<close>

text \<open>
  Modelled from the spec: \<^verbatim>\<open>lttng_ht_lookup\<close>, \<^verbatim>\<open>lttng_ht_add_str\<close> and
  \<^verbatim>\<open>lttng_ht_del\<close> (src/common/hashtable is not among the sources), on the spec's
  table from subpath to trace. A lookup returns a node with the key, if there is one.
  \<^verbatim>\<open>lttng_ht_add_str\<close> is the plain add, which does not look for the key first.
  \<^verbatim>\<open>lttng_ht_del\<close> returns 0 when it unlinks the node and a negative value when the
  node is not in the table.
\<close>

definition lttng_ht_lookup :: "(string \<times> trace_ptr) list \<Rightarrow> string \<Rightarrow> trace_ptr option" where
  "lttng_ht_lookup ht key = map_of ht key"

definition lttng_ht_add_str ::
  "(string \<times> trace_ptr) list \<Rightarrow> string \<times> trace_ptr \<Rightarrow> (string \<times> trace_ptr) list" where
  "lttng_ht_add_str ht node = node # ht"

definition lttng_ht_del ::
  "(string \<times> trace_ptr) list \<Rightarrow> trace_ptr \<Rightarrow> int \<times> (string \<times> trace_ptr) list" where
  "lttng_ht_del ht trace =
     (if trace \<in> snd ` set ht then (0, filter (\<lambda>node. snd node \<noteq> trace) ht)
      else (- 2, ht))"

subsection \<open>Session references (session.cpp is not among the sources)\<close>

text \<open>
  Modelled from the spec: \<^verbatim>\<open>session_get\<close> and \<^verbatim>\<open>session_put\<close>, the acquisition
  and the release of a strong reference on a relay session. What the release of the last
  reference does to the session beyond the count is not modelled.
\<close>

definition session_get :: "session_ptr \<Rightarrow> relay_state \<Rightarrow> fault + (bool \<times> relay_state)" where
  "session_get sp s =
     (case sessions s sp of
        None \<Rightarrow> Inl InvalidPointer
      | Some se \<Rightarrow>
          (case urcu_ref_get_unless_zero (session_ref se) of
             (got, refcount) \<Rightarrow> Inr (got, set_session sp (se\<lparr>session_ref := refcount\<rparr>) s)))"

definition session_put :: "session_ptr option \<Rightarrow> relay_state \<Rightarrow> fault + relay_state" where
  "session_put session s =
     (case session of
        None \<Rightarrow> Inl NullDereference
      | Some sp \<Rightarrow>
          (case sessions s sp of
             None \<Rightarrow> Inl InvalidPointer
           | Some se \<Rightarrow>
               (case urcu_ref_put (session_ref se) of
                  None \<Rightarrow> Inl AssertionFailure
                | Some refcount \<Rightarrow> Inr (set_session sp (se\<lparr>session_ref := refcount\<rparr>) s))))"

section \<open>ctf-trace.cpp\<close>

text \<open>
  \<^verbatim>\<open>ctf_trace_destroy\<close>: the assertion on the stream list, the assertion that the
  caller is in a read-side critical section, the release of the session reference, the
  clearing of the two pointers, and the deferred \<^verbatim>\<open>free\<close>.
\<close>

definition ctf_trace_destroy :: "trace_ptr \<Rightarrow> relay_state \<Rightarrow> fault + relay_state" where
  "ctf_trace_destroy trace s =
     (case trace_at s trace of
        None \<Rightarrow> Inl InvalidPointer
      | Some tr \<Rightarrow>
          if stream_list tr \<noteq> Some [] then Inl AssertionFailure
          else if rcu_read_nesting s = 0 then Inl AssertionFailure
          else
            (case session_put (trace_session tr) s of
               Inl f \<Rightarrow> Inl f
             | Inr s1 \<Rightarrow>
                 Inr (call_rcu trace
                       (set_trace trace (tr\<lparr>trace_session := None, trace_path := None\<rparr>) s1))))"

text \<open>
  \<^verbatim>\<open>ctf_trace_release\<close>: \<^verbatim>\<open>trace->session->ctf_traces_ht\<close> is read through the
  session pointer of the trace; the deletion must return 0.
\<close>

definition ctf_trace_release :: "trace_ptr \<Rightarrow> relay_state \<Rightarrow> fault + relay_state" where
  "ctf_trace_release trace s =
     (case trace_at s trace of
        None \<Rightarrow> Inl InvalidPointer
      | Some tr \<Rightarrow>
          (case trace_session tr of
             None \<Rightarrow> Inl NullDereference
           | Some sp \<Rightarrow>
               (case sessions s sp of
                  None \<Rightarrow> Inl InvalidPointer
                | Some se \<Rightarrow>
                    (case lttng_ht_del (ctf_traces_ht se) trace of
                       (ret, ht) \<Rightarrow>
                         if ret \<noteq> 0 then Inl AssertionFailure
                         else ctf_trace_destroy trace
                                (set_session sp (se\<lparr>ctf_traces_ht := ht\<rparr>) s)))))"

text \<open>
  \<^verbatim>\<open>ctf_trace_get\<close>: when the count was zero the caller must be in a read-side
  critical section (\<^verbatim>\<open>ASSERT_RCU_READ_LOCKED\<close>).
\<close>

definition ctf_trace_get :: "trace_ptr \<Rightarrow> relay_state \<Rightarrow> fault + (bool \<times> relay_state)" where
  "ctf_trace_get trace s =
     (case trace_at s trace of
        None \<Rightarrow> Inl InvalidPointer
      | Some tr \<Rightarrow>
          (case urcu_ref_get_unless_zero (trace_ref tr) of
             (ref, refcount) \<Rightarrow>
               if \<not> ref \<and> rcu_read_nesting s = 0 then Inl AssertionFailure
               else Inr (ref, set_trace trace (tr\<lparr>trace_ref := refcount\<rparr>) s)))"

text \<open>
  \<^verbatim>\<open>ctf_trace_put\<close>: \<^verbatim>\<open>urcu_ref_put(&trace->ref, ctf_trace_release)\<close> inside a
  read-side critical section; the release callback runs when the count reaches zero.
\<close>

definition ctf_trace_put :: "trace_ptr \<Rightarrow> relay_state \<Rightarrow> fault + relay_state" where
  "ctf_trace_put trace s =
     (let s1 = rcu_read_lock s in
      case trace_at s1 trace of
        None \<Rightarrow> Inl InvalidPointer
      | Some tr \<Rightarrow>
          (case urcu_ref_put (trace_ref tr) of
             None \<Rightarrow> Inl AssertionFailure
           | Some res \<Rightarrow>
               (let s2 = set_trace trace (tr\<lparr>trace_ref := res\<rparr>) s1 in
                case (if res = 0 then ctf_trace_release trace s2 else Inr s2) of
                  Inl f \<Rightarrow> Inl f
                | Inr s3 \<Rightarrow> Inr (rcu_read_unlock s3))))"

text \<open>\<^verbatim>\<open>zmalloc<ctf_trace>()\<close>: a new object with every field zero, or null.\<close>

definition zeroed_ctf_trace :: ctf_trace where
  "zeroed_ctf_trace =
     \<lparr>trace_ref = 0, trace_session = None, trace_path = None, trace_id = 0,
      stream_list = None, viewer_metadata_stream = None, trace_node = None\<rparr>"

definition zmalloc :: "environment \<Rightarrow> relay_state \<Rightarrow> (trace_ptr \<times> relay_state) option" where
  "zmalloc env s =
     (if zmalloc_succeeds env
      then Some (length (traces s), s\<lparr>traces := traces s @ [Some zeroed_ctf_trace]\<rparr>)
      else None)"

definition strdup :: "environment \<Rightarrow> string \<Rightarrow> string option" where
  "strdup env str = (if strdup_succeeds env then Some str else None)"

text \<open>A store to a field of a trace the function has just allocated.\<close>

definition update_trace ::
  "trace_ptr \<Rightarrow> (ctf_trace \<Rightarrow> ctf_trace) \<Rightarrow> relay_state \<Rightarrow> relay_state" where
  "update_trace trace f s = s\<lparr>traces := (traces s)[trace := map_option f (traces s ! trace)]\<rparr>"

text \<open>
  The \<^verbatim>\<open>error:\<close> label of \<^verbatim>\<open>ctf_trace_create\<close>: \<^verbatim>\<open>ctf_trace_put(trace)\<close>, then
  the null result.
\<close>

definition ctf_trace_create_error ::
  "trace_ptr \<Rightarrow> relay_state \<Rightarrow> fault + (trace_ptr option \<times> relay_state)" where
  "ctf_trace_create_error trace s =
     (case ctf_trace_put trace s of Inl f \<Rightarrow> Inl f | Inr s' \<Rightarrow> Inr (None, s'))"

text \<open>
  \<^verbatim>\<open>ctf_trace_create\<close> up to and without its call of \<^verbatim>\<open>lttng_ht_add_str\<close>: the
  allocation, \<^verbatim>\<open>urcu_ref_init\<close>, the session reference, the path, the list head, the
  identifier drawn from \<^verbatim>\<open>last_relay_ctf_trace_id\<close> (\<^verbatim>\<open>++\<close> on a
  \<^verbatim>\<open>uint64_t\<close>), the node and the second store of the session pointer.
\<close>

definition ctf_trace_create_unpublished ::
  "environment \<Rightarrow> session_ptr \<Rightarrow> string \<Rightarrow> relay_state \<Rightarrow>
   fault + (trace_ptr option \<times> relay_state)" where
  "ctf_trace_create_unpublished env session subpath s =
     (case zmalloc env s of
        None \<Rightarrow> Inr (None, s)
      | Some (trace, s1) \<Rightarrow>
          (let s2 = update_trace trace (\<lambda>tr. tr\<lparr>trace_ref := urcu_ref_init\<rparr>) s1 in
           case session_get session s2 of
             Inl f \<Rightarrow> Inl f
           | Inr (got, s3) \<Rightarrow>
               if \<not> got then ctf_trace_create_error trace s3
               else
                 (let s4 = update_trace trace (\<lambda>tr. tr\<lparr>trace_session := Some session\<rparr>) s3;
                      path = strdup env subpath;
                      s5 = update_trace trace (\<lambda>tr. tr\<lparr>trace_path := path\<rparr>) s4
                  in case path of
                       None \<Rightarrow> ctf_trace_create_error trace s5
                     | Some p \<Rightarrow>
                         (let s6 = update_trace trace (\<lambda>tr. tr\<lparr>stream_list := Some []\<rparr>) s5;
                              new_id = last_relay_ctf_trace_id s6 + 1;
                              s7 = s6\<lparr>last_relay_ctf_trace_id := new_id\<rparr>;
                              s8 = update_trace trace (\<lambda>tr. tr\<lparr>trace_id := new_id\<rparr>) s7;
                              s9 = update_trace trace (\<lambda>tr. tr\<lparr>trace_node := Some p\<rparr>) s8;
                              s10 = update_trace trace
                                      (\<lambda>tr. tr\<lparr>trace_session := Some session\<rparr>) s9
                          in Inr (Some trace, s10)))))"

text \<open>
  \<^verbatim>\<open>lttng_ht_add_str(session->ctf_traces_ht, &trace->node)\<close>: the node carries the
  key it was initialised with.
\<close>

definition publish_trace :: "session_ptr \<Rightarrow> trace_ptr \<Rightarrow> relay_state \<Rightarrow> fault + relay_state" where
  "publish_trace session trace s =
     (case sessions s session of
        None \<Rightarrow> Inl InvalidPointer
      | Some se \<Rightarrow>
          (case trace_at s trace of
             None \<Rightarrow> Inl InvalidPointer
           | Some tr \<Rightarrow>
               (case trace_node tr of
                  None \<Rightarrow> Inl NullDereference
                | Some key \<Rightarrow>
                    Inr (set_session session
                          (se\<lparr>ctf_traces_ht := lttng_ht_add_str (ctf_traces_ht se) (key, trace)\<rparr>)
                          s))))"

definition ctf_trace_create ::
  "environment \<Rightarrow> session_ptr \<Rightarrow> string \<Rightarrow> relay_state \<Rightarrow>
   fault + (trace_ptr option \<times> relay_state)" where
  "ctf_trace_create env session subpath s =
     (case ctf_trace_create_unpublished env session subpath s of
        Inl f \<Rightarrow> Inl f
      | Inr (None, s') \<Rightarrow> Inr (None, s')
      | Inr (Some trace, s') \<Rightarrow>
          (case publish_trace session trace s' of
             Inl f \<Rightarrow> Inl f
           | Inr s'' \<Rightarrow> Inr (Some trace, s'')))"

text \<open>
  The read-side critical section of \<^verbatim>\<open>ctf_trace_get_by_path_or_create\<close>: the lookup
  of the path and, on a hit, \<^verbatim>\<open>ctf_trace_get\<close>.
\<close>

definition ctf_trace_get_by_path ::
  "session_ptr \<Rightarrow> string \<Rightarrow> relay_state \<Rightarrow> fault + (trace_ptr option \<times> relay_state)" where
  "ctf_trace_get_by_path session subpath s =
     (let s1 = rcu_read_lock s in
      case sessions s1 session of
        None \<Rightarrow> Inl InvalidPointer
      | Some se \<Rightarrow>
          (case lttng_ht_lookup (ctf_traces_ht se) subpath of
             None \<Rightarrow> Inr (None, rcu_read_unlock s1)
           | Some trace \<Rightarrow>
               (case ctf_trace_get trace s1 of
                  Inl f \<Rightarrow> Inl f
                | Inr (got, s2) \<Rightarrow>
                    Inr (if got then Some trace else None, rcu_read_unlock s2))))"

definition ctf_trace_get_by_path_or_create ::
  "environment \<Rightarrow> session_ptr \<Rightarrow> string \<Rightarrow> relay_state \<Rightarrow>
   fault + (trace_ptr option \<times> relay_state)" where
  "ctf_trace_get_by_path_or_create env session subpath s =
     (case ctf_trace_get_by_path session subpath s of
        Inl f \<Rightarrow> Inl f
      | Inr (Some trace, s') \<Rightarrow> Inr (Some trace, s')
      | Inr (None, s') \<Rightarrow> ctf_trace_create env session subpath s')"

text \<open>
  Modelled from the spec: \<^verbatim>\<open>try_stream_close\<close> (stream.cpp is not among the
  sources). Section 4.3: a transition to \<open>Closing\<close> is initiated by \<open>try_close\<close>, from
  \<open>Indexed\<close> and from \<open>Ready\<close>; in every other state the stream stays as it is.
\<close>

fun try_close :: "readiness \<Rightarrow> readiness" where
  "try_close Indexed = Closing"
| "try_close Ready = Closing"
| "try_close r = r"

definition try_stream_close :: "stream_ptr \<Rightarrow> relay_state \<Rightarrow> relay_state" where
  "try_stream_close stream s =
     (case streams s stream of
        None \<Rightarrow> s
      | Some st \<Rightarrow>
          s\<lparr>streams := (streams s)(stream \<mapsto> st\<lparr>stream_state := try_close (stream_state st)\<rparr>)\<rparr>)"

text \<open>
  The \<^verbatim>\<open>cds_list_for_each_entry_rcu\<close> loop of \<^verbatim>\<open>ctf_trace_close\<close>, over the
  streams linked in the list.
\<close>

fun close_each_stream :: "stream_ptr list \<Rightarrow> relay_state \<Rightarrow> relay_state" where
  "close_each_stream [] s = s"
| "close_each_stream (stream # rest) s = close_each_stream rest (try_stream_close stream s)"

definition ctf_trace_close :: "trace_ptr \<Rightarrow> relay_state \<Rightarrow> fault + (int \<times> relay_state)" where
  "ctf_trace_close trace s =
     (let s1 = rcu_read_lock s in
      case trace_at s1 trace of
        None \<Rightarrow> Inl InvalidPointer
      | Some tr \<Rightarrow>
          (case stream_list tr of
             None \<Rightarrow> Inl NullDereference
           | Some linked \<Rightarrow> Inr (0, rcu_read_unlock (close_each_stream linked s1))))"

text \<open>
  Modelled from the spec: \<^verbatim>\<open>viewer_stream_get\<close> (viewer-stream.cpp is not among the
  sources), the acquisition of a strong reference on a viewer stream.
\<close>

definition viewer_stream_get :: "vstream_ptr \<Rightarrow> relay_state \<Rightarrow> fault + (bool \<times> relay_state)" where
  "viewer_stream_get vstream s =
     (case viewer_streams s vstream of
        None \<Rightarrow> Inl InvalidPointer
      | Some vs \<Rightarrow>
          (case urcu_ref_get_unless_zero (vstream_ref vs) of
             (got, refcount) \<Rightarrow>
               Inr (got, s\<lparr>viewer_streams :=
                              (viewer_streams s)(vstream \<mapsto> vs\<lparr>vstream_ref := refcount\<rparr>)\<rparr>)))"

definition ctf_trace_get_viewer_metadata_stream ::
  "trace_ptr \<Rightarrow> relay_state \<Rightarrow> fault + (vstream_ptr option \<times> relay_state)" where
  "ctf_trace_get_viewer_metadata_stream trace s =
     (let s1 = rcu_read_lock s in
      case trace_at s1 trace of
        None \<Rightarrow> Inl InvalidPointer
      | Some tr \<Rightarrow>
          (case viewer_metadata_stream tr of
             None \<Rightarrow> Inr (None, rcu_read_unlock s1)
           | Some vstream \<Rightarrow>
               (case viewer_stream_get vstream s1 of
                  Inl f \<Rightarrow> Inl f
                | Inr (got, s2) \<Rightarrow>
                    Inr (if got then Some vstream else None, rcu_read_unlock s2))))"

section \<open>viewer-session.cpp\<close>

text \<open>
  The three values of \<^verbatim>\<open>enum lttng_viewer_attach_return_code\<close> that
  \<^verbatim>\<open>viewer_session_attach\<close> assigns to its status (the declaration of the enum is not
  among the sources).
\<close>

datatype lttng_viewer_attach_return_code =
  LTTNG_VIEWER_ATTACH_OK | LTTNG_VIEWER_ATTACH_ALREADY | LTTNG_VIEWER_ATTACH_UNK

text \<open>
  \<^verbatim>\<open>viewer_session_set_trace_chunk_copy\<close>: the chunk of the viewer session is
  released and cleared first; a null chunk of the relay session is success; a failed
  copy is \<open>-1\<close>. Chunks are opaque handles; their own reference counts are not
  modelled.
\<close>

definition viewer_session_set_trace_chunk_copy ::
  "environment \<Rightarrow> relay_viewer_session \<Rightarrow> chunk_ptr option \<Rightarrow> int \<times> relay_viewer_session" where
  "viewer_session_set_trace_chunk_copy env vsession relay_session_trace_chunk =
     (let vsession1 = vsession\<lparr>viewer_trace_chunk := None\<rparr> in
      case relay_session_trace_chunk of
        None \<Rightarrow> (0, vsession1)
      | Some chunk \<Rightarrow>
          (case lttng_trace_chunk_copy env chunk of
             None \<Rightarrow> (- 1, vsession1)
           | Some viewer_chunk \<Rightarrow> (0, vsession1\<lparr>viewer_trace_chunk := Some viewer_chunk\<rparr>)))"

text \<open>
  \<^verbatim>\<open>viewer_session_attach\<close>. \<^verbatim>\<open>ASSERT_LOCKED(session->lock)\<close> comes first. The
  reference taken by \<^verbatim>\<open>session_get\<close> is kept by the list on success and put back
  otherwise. \<^verbatim>\<open>cds_list_add_rcu\<close> links the session at the head of the list.
\<close>

definition viewer_session_attach ::
  "environment \<Rightarrow> vsession_ptr \<Rightarrow> session_ptr \<Rightarrow> relay_state \<Rightarrow>
   fault + (lttng_viewer_attach_return_code \<times> relay_state)" where
  "viewer_session_attach env vsession session s =
     (case (viewer_sessions s vsession, sessions s session) of
        (Some vs, Some se) \<Rightarrow>
          if \<not> session_lock se then Inl AssertionFailure
          else
            (case session_get session s of
               Inl f \<Rightarrow> Inl f
             | Inr (False, s1) \<Rightarrow> Inr (LTTNG_VIEWER_ATTACH_UNK, s1)
             | Inr (True, s1) \<Rightarrow>
                 (case sessions s1 session of
                    None \<Rightarrow> Inl InvalidPointer
                  | Some se1 \<Rightarrow>
                      (case (if viewer_attached se1 then (LTTNG_VIEWER_ATTACH_ALREADY, s1)
                             else
                               (let s2 = set_session session (se1\<lparr>viewer_attached := True\<rparr>) s1
                                in case viewer_session_set_trace_chunk_copy env vs
                                          (current_trace_chunk se1) of
                                     (ret, vs1) \<Rightarrow>
                                       (let s3 = s2\<lparr>viewer_sessions :=
                                                       (viewer_sessions s2)(vsession \<mapsto> vs1)\<rparr>
                                        in if ret \<noteq> 0 then (LTTNG_VIEWER_ATTACH_UNK, s3)
                                           else (LTTNG_VIEWER_ATTACH_OK, s3)))) of
                         (viewer_attach_status, s4) \<Rightarrow>
                           if viewer_attach_status = LTTNG_VIEWER_ATTACH_OK
                           then
                             (case viewer_sessions s4 vsession of
                                None \<Rightarrow> Inl InvalidPointer
                              | Some vs4 \<Rightarrow>
                                  Inr (viewer_attach_status,
                                       s4\<lparr>viewer_sessions := (viewer_sessions s4)
                                             (vsession \<mapsto>
                                                vs4\<lparr>session_list := session # session_list vs4\<rparr>)\<rparr>))
                           else
                             (case session_put (Some session) s4 of
                                Inl f \<Rightarrow> Inl f
                              | Inr s5 \<Rightarrow> Inr (viewer_attach_status, s5)))))
      | _ \<Rightarrow> Inl InvalidPointer)"

text \<open>\<^verbatim>\<open>pthread_mutex_lock\<close> and \<^verbatim>\<open>pthread_mutex_unlock\<close> on \<^verbatim>\<open>session->lock\<close>.\<close>

definition session_mutex_lock :: "session_ptr \<Rightarrow> relay_state \<Rightarrow> fault + relay_state" where
  "session_mutex_lock session s =
     (case sessions s session of
        None \<Rightarrow> Inl InvalidPointer
      | Some se \<Rightarrow>
          if session_lock se then Inl Deadlock
          else Inr (set_session session (se\<lparr>session_lock := True\<rparr>) s))"

definition session_mutex_unlock :: "session_ptr \<Rightarrow> relay_state \<Rightarrow> fault + relay_state" where
  "session_mutex_unlock session s =
     (case sessions s session of
        None \<Rightarrow> Inl InvalidPointer
      | Some se \<Rightarrow> Inr (set_session session (se\<lparr>session_lock := False\<rparr>) s))"

text \<open>
  \<^verbatim>\<open>viewer_session_detach\<close> takes the session lock itself. \<^verbatim>\<open>cds_list_del_rcu\<close>
  unlinks the node of the session from the list it is in, whichever viewer session
  owns that list.
\<close>

definition cds_list_del_rcu ::
  "session_ptr \<Rightarrow> (vsession_ptr \<rightharpoonup> relay_viewer_session) \<Rightarrow>
   (vsession_ptr \<rightharpoonup> relay_viewer_session)" where
  "cds_list_del_rcu session vss =
     (\<lambda>v. case vss v of
             None \<Rightarrow> None
           | Some vs \<Rightarrow> Some (vs\<lparr>session_list := removeAll session (session_list vs)\<rparr>))"

definition viewer_session_detach ::
  "vsession_ptr \<Rightarrow> session_ptr \<Rightarrow> relay_state \<Rightarrow> fault + (int \<times> relay_state)" where
  "viewer_session_detach vsession session s =
     (case session_mutex_lock session s of
        Inl f \<Rightarrow> Inl f
      | Inr s1 \<Rightarrow>
          (case (viewer_sessions s1 vsession, sessions s1 session) of
             (Some vs, Some se) \<Rightarrow>
               (case (if \<not> viewer_attached se then Inr (- 1, s1)
                      else
                        (let s2 = set_session session (se\<lparr>viewer_attached := False\<rparr>) s1;
                             s3 = s2\<lparr>viewer_sessions :=
                                       cds_list_del_rcu session (viewer_sessions s2)\<rparr>
                         in case session_put (Some session) s3 of
                              Inl f \<Rightarrow> Inl f
                            | Inr s4 \<Rightarrow> Inr (0, s4))) of
                  Inl f \<Rightarrow> Inl f
                | Inr (ret, s5) \<Rightarrow>
                    (case session_mutex_unlock session s5 of
                       Inl f \<Rightarrow> Inl f
                     | Inr s6 \<Rightarrow> Inr (ret, s6)))
           | _ \<Rightarrow> Inl InvalidPointer))"

section \<open>Auxiliary definitions for the statements\<close>

text \<open>What \<^verbatim>\<open>try_stream_close\<close> does to one stream, and to the streams of a list.\<close>

definition close_stream :: "relay_stream \<Rightarrow> relay_stream" where
  "close_stream st = st\<lparr>stream_state := try_close (stream_state st)\<rparr>"

definition close_linked ::
  "stream_ptr list \<Rightarrow> (stream_ptr \<rightharpoonup> relay_stream) \<Rightarrow> (stream_ptr \<rightharpoonup> relay_stream)" where
  "close_linked linked m =
     (\<lambda>p. if p \<in> set linked then map_option close_stream (m p) else m p)"

subsection \<open>Concrete states\<close>

text \<open>An environment in which every allocation succeeds.\<close>

definition example_env :: environment where
  "example_env =
     \<lparr>zmalloc_succeeds = True, strdup_succeeds = True,
      lttng_trace_chunk_copy = (\<lambda>chunk. Some (chunk + 1))\<rparr>"

text \<open>
  A session at address 0 with one published trace at address 0, whose only reference
  is held by the caller; the viewer metadata stream of the trace is published.
\<close>

definition example_session :: relay_session where
  "example_session =
     \<lparr>session_ref = 2, ctf_traces_ht = [(''ust/uid/1000/64-bit'', 0)],
      viewer_attached = False, current_trace_chunk = Some 7, session_lock = False\<rparr>"

definition example_trace :: ctf_trace where
  "example_trace =
     \<lparr>trace_ref = 1, trace_session = Some 0, trace_path = Some ''ust/uid/1000/64-bit'',
      trace_id = 1, stream_list = Some [], viewer_metadata_stream = Some 0,
      trace_node = Some ''ust/uid/1000/64-bit''\<rparr>"

definition example_state :: relay_state where
  "example_state =
     \<lparr>traces = [Some example_trace],
      sessions = [0 \<mapsto> example_session],
      streams = [0 \<mapsto> \<lparr>stream_state = Ready\<rparr>, 1 \<mapsto> \<lparr>stream_state = Closing\<rparr>],
      viewer_streams = [0 \<mapsto> \<lparr>vstream_ref = 1\<rparr>],
      viewer_sessions = [0 \<mapsto> \<lparr>viewer_trace_chunk = None, session_list = []\<rparr>],
      last_relay_ctf_trace_id = 1, rcu_read_nesting = 0, rcu_callbacks = []\<rparr>"

text \<open>The same state with two streams linked in the list of the trace.\<close>

definition busy_state :: relay_state where
  "busy_state = set_trace 0 (example_trace\<lparr>stream_list := Some [0, 1]\<rparr>) example_state"

text \<open>A process that has created no trace yet: one session, referenced once.\<close>

definition empty_session :: relay_session where
  "empty_session =
     \<lparr>session_ref = 1, ctf_traces_ht = [], viewer_attached = False,
      current_trace_chunk = None, session_lock = False\<rparr>"

definition initial_state :: relay_state where
  "initial_state =
     \<lparr>traces = [], sessions = [0 \<mapsto> empty_session], streams = Map.empty,
      viewer_streams = Map.empty,
      viewer_sessions = [0 \<mapsto> \<lparr>viewer_trace_chunk = None, session_list = []\<rparr>],
      last_relay_ctf_trace_id = 0, rcu_read_nesting = 0, rcu_callbacks = []\<rparr>"

text \<open>
  The fields of a trace when \<^verbatim>\<open>ctf_trace_create\<close> reaches its call of
  \<^verbatim>\<open>lttng_ht_add_str\<close>.
\<close>

definition new_ctf_trace :: "session_ptr \<Rightarrow> string \<Rightarrow> 64 word \<Rightarrow> ctf_trace" where
  "new_ctf_trace session subpath new_id =
     \<lparr>trace_ref = 1, trace_session = Some session, trace_path = Some subpath,
      trace_id = new_id, stream_list = Some [], viewer_metadata_stream = None,
      trace_node = Some subpath\<rparr>"

text \<open>
  Every node of the table of a session belongs to a live trace whose session pointer,
  path, node key and list head are set.
\<close>

definition table_constructed :: "relay_state \<Rightarrow> session_ptr \<Rightarrow> bool" where
  "table_constructed s sp =
     (case sessions s sp of
        None \<Rightarrow> True
      | Some se \<Rightarrow>
          list_all
            (\<lambda>node. case trace_at s (snd node) of
                      None \<Rightarrow> False
                    | Some tr \<Rightarrow>
                        trace_session tr = Some sp \<and> trace_path tr = Some (fst node) \<and>
                        trace_node tr = Some (fst node) \<and> stream_list tr \<noteq> None)
            (ctf_traces_ht se))"

text \<open>No allocated trace has an identifier above the counter.\<close>

definition ids_bounded :: "relay_state \<Rightarrow> bool" where
  "ids_bounded s =
     list_all (\<lambda>slot. case slot of
                        None \<Rightarrow> True
                      | Some tr \<Rightarrow> trace_id tr \<le> last_relay_ctf_trace_id s)
       (traces s)"

text \<open>The initial state after \<open>2 ^ 64 - 2\<close> traces have been created and freed.\<close>

definition wrap_state :: relay_state where
  "wrap_state = initial_state\<lparr>last_relay_ctf_trace_id := - 2\<rparr>"

text \<open>The initial state with a session whose last reference has been released.\<close>

definition vanishing_state :: relay_state where
  "vanishing_state = initial_state\<lparr>sessions := [0 \<mapsto> empty_session\<lparr>session_ref := 0\<rparr>]\<rparr>"

subsection \<open>Callers of the lookup-or-create function\<close>

text \<open>
  Where a caller of \<^verbatim>\<open>ctf_trace_get_by_path_or_create\<close> stands: before its
  read-side critical section, between that section and \<^verbatim>\<open>ctf_trace_create\<close>, or
  returned. The function holds no lock between the two, so another thread can run there.
\<close>

datatype caller = Looking | Creating | Returned "trace_ptr option"

definition caller_step ::
  "environment \<Rightarrow> session_ptr \<Rightarrow> string \<Rightarrow> caller \<Rightarrow> relay_state \<Rightarrow>
   fault + (caller \<times> relay_state)" where
  "caller_step env session subpath c s =
     (case c of
        Looking \<Rightarrow>
          (case ctf_trace_get_by_path session subpath s of
             Inl f \<Rightarrow> Inl f
           | Inr (Some trace, s') \<Rightarrow> Inr (Returned (Some trace), s')
           | Inr (None, s') \<Rightarrow> Inr (Creating, s'))
      | Creating \<Rightarrow>
          (case ctf_trace_create env session subpath s of
             Inl f \<Rightarrow> Inl f
           | Inr (r, s') \<Rightarrow> Inr (Returned r, s'))
      | Returned r \<Rightarrow> Inr (Returned r, s))"

text \<open>
  Several callers on one state: the schedule names, step by step, the caller that runs
  its next part.
\<close>

fun run_schedule ::
  "environment \<Rightarrow> session_ptr \<Rightarrow> string \<Rightarrow> nat list \<Rightarrow> caller list \<times> relay_state \<Rightarrow>
   fault + (caller list \<times> relay_state)" where
  "run_schedule env session subpath [] (callers, s) = Inr (callers, s)"
| "run_schedule env session subpath (i # rest) (callers, s) =
     (if i < length callers
      then (case caller_step env session subpath (callers ! i) s of
              Inl f \<Rightarrow> Inl f
            | Inr (c, s') \<Rightarrow> run_schedule env session subpath rest (callers[i := c], s'))
      else run_schedule env session subpath rest (callers, s))"

text \<open>The traces published in the table of a session under a path.\<close>

definition published_for :: "relay_state \<Rightarrow> session_ptr \<Rightarrow> string \<Rightarrow> trace_ptr list" where
  "published_for s session subpath =
     (case sessions s session of
        None \<Rightarrow> []
      | Some se \<Rightarrow> map snd (filter (\<lambda>node. fst node = subpath) (ctf_traces_ht se)))"

text \<open>A number of calls, each made after the one before has returned.\<close>

fun sequential_callers ::
  "nat \<Rightarrow> environment \<Rightarrow> session_ptr \<Rightarrow> string \<Rightarrow> relay_state \<Rightarrow>
   fault + (trace_ptr option list \<times> relay_state)" where
  "sequential_callers 0 env session subpath s = Inr ([], s)"
| "sequential_callers (Suc n) env session subpath s =
     (case ctf_trace_get_by_path_or_create env session subpath s of
        Inl f \<Rightarrow> Inl f
      | Inr (r, s1) \<Rightarrow>
          (case sequential_callers n env session subpath s1 of
             Inl f \<Rightarrow> Inl f
           | Inr (rs, s2) \<Rightarrow> Inr (r # rs, s2)))"

subsection \<open>Statements about viewer sessions\<close>

text \<open>
  Whether \<^verbatim>\<open>viewer_session_set_trace_chunk_copy\<close> would return 0 for the current
  trace chunk of a session, and the chunk it would leave in the viewer session.
\<close>

definition chunk_copy_succeeds :: "environment \<Rightarrow> relay_session \<Rightarrow> bool" where
  "chunk_copy_succeeds env se =
     (case current_trace_chunk se of
        None \<Rightarrow> True
      | Some chunk \<Rightarrow> lttng_trace_chunk_copy env chunk \<noteq> None)"

definition copied_chunk :: "environment \<Rightarrow> relay_session \<Rightarrow> chunk_ptr option" where
  "copied_chunk env se =
     (case current_trace_chunk se of
        None \<Rightarrow> None
      | Some chunk \<Rightarrow> lttng_trace_chunk_copy env chunk)"

text \<open>
  The example state with the lock of the session held by the caller, and an environment
  in which the copy of a trace chunk fails.
\<close>

definition locked_state :: relay_state where
  "locked_state = set_session 0 (example_session\<lparr>session_lock := True\<rparr>) example_state"

definition failing_copy_env :: environment where
  "failing_copy_env = example_env\<lparr>lttng_trace_chunk_copy := (\<lambda>chunk. None)\<rparr>"

section \<open>Identifier escaping: proofs\<close>

lemma replace_illegal_map:
  "replace_illegal acc xs = acc @ map underscore_illegal xs"
  by (induction xs arbitrary: acc) (auto simp: underscore_illegal_def)

lemma isalnum_c_chars:
  "(isalnum_c c \<or> c = CHR ''_'') = (c \<in> set tsdl_identifier_chars)"
proof (cases c)
  case (Char b0 b1 b2 b3 b4 b5 b6 b7)
  then show ?thesis
    by (cases b0; cases b1; cases b2; cases b3; cases b4; cases b5; cases b6; cases b7)
       (simp_all add: isalnum_c_def tsdl_identifier_chars_def)
qed

lemma underscore_illegal_legal: "underscore_illegal c \<in> set tsdl_identifier_chars"
  unfolding isalnum_c_chars [symmetric] by (simp add: underscore_illegal_def)

lemma underscore_in_chars: "CHR ''_'' \<in> set tsdl_identifier_chars"
  by (simp add: tsdl_identifier_chars_def)

text \<open>
  Claim C7. The escaping function rejects the empty identifier, returns the identifiers
  of the reserved list unchanged, and maps every other identifier to an underscore
  followed by the input with each character outside the ASCII letters, the digits and
  the underscore replaced by an underscore; the result then starts with an underscore and
  holds only characters of \<open>tsdl_identifier_chars\<close>. The two literal examples of the spec are part of the
  statement.
\<close>

theorem escape_tsdl_identifier_spec:
  "(x = [] \<longrightarrow> escape_tsdl_identifier x = Inl InvalidIdentifier) \<and>
   (x \<in> set safe_tsdl_identifiers \<longrightarrow> escape_tsdl_identifier x = Inr x) \<and>
   (x \<noteq> [] \<and> x \<notin> set safe_tsdl_identifiers \<longrightarrow>
      (\<exists>r. escape_tsdl_identifier x = Inr r \<and>
           r = CHR ''_'' # map underscore_illegal x \<and>
           hd r = CHR ''_'' \<and>
           (\<forall>c \<in> set r. c \<in> set tsdl_identifier_chars))) \<and>
   escape_tsdl_identifier ''my field!'' = Inr ''_my_field_'' \<and>
   escape_tsdl_identifier ''uuid'' = Inr ''uuid'' \<and>
   escape_tsdl_identifier '''' = Inl InvalidIdentifier"
proof -
  have empty: "x = [] \<longrightarrow> escape_tsdl_identifier x = Inl InvalidIdentifier"
    by (simp add: escape_tsdl_identifier_def)
  have safe: "x \<in> set safe_tsdl_identifiers \<longrightarrow> escape_tsdl_identifier x = Inr x"
    by (auto simp: escape_tsdl_identifier_def safe_tsdl_identifiers_def)
  have other: "x \<noteq> [] \<and> x \<notin> set safe_tsdl_identifiers \<longrightarrow>
      (\<exists>r. escape_tsdl_identifier x = Inr r \<and>
           r = CHR ''_'' # map underscore_illegal x \<and>
           hd r = CHR ''_'' \<and>
           (\<forall>c \<in> set r. c \<in> set tsdl_identifier_chars))"
    using underscore_illegal_legal underscore_in_chars
    by (auto simp: escape_tsdl_identifier_def replace_illegal_map)
  have ex1: "escape_tsdl_identifier ''my field!'' = Inr ''_my_field_''"
    by (simp add: escape_tsdl_identifier_def safe_tsdl_identifiers_def isalnum_c_def)
  have ex2: "escape_tsdl_identifier ''uuid'' = Inr ''uuid''"
    by (simp add: escape_tsdl_identifier_def safe_tsdl_identifiers_def)
  have ex3: "escape_tsdl_identifier '''' = Inl InvalidIdentifier"
    by (simp add: escape_tsdl_identifier_def)
  from empty safe other ex1 ex2 ex3 show ?thesis by blast
qed

theorem escape_tsdl_identifier_spec_witness:
  "escape_tsdl_identifier ''a-b'' = Inr ''_a_b'' \<and>
   escape_tsdl_identifier ''cpu_id'' = Inr ''cpu_id''"
proof -
  have ne: "''a-b'' \<noteq> [] \<and> ''a-b'' \<notin> set safe_tsdl_identifiers"
    by (simp add: safe_tsdl_identifiers_def)
  have mem: "''cpu_id'' \<in> set safe_tsdl_identifiers"
    by (simp add: safe_tsdl_identifiers_def)
  have "escape_tsdl_identifier ''a-b'' = Inr (CHR ''_'' # map underscore_illegal ''a-b'')"
    using escape_tsdl_identifier_spec [of "''a-b''"] ne by blast
  moreover have "escape_tsdl_identifier ''cpu_id'' = Inr ''cpu_id''"
    using escape_tsdl_identifier_spec [of "''cpu_id''"] mem by blast
  ultimately show ?thesis
    by (simp add: underscore_illegal_def isalnum_c_def)
qed

section \<open>Store and RCU bookkeeping\<close>

lemma rcu_read_unlock_lock [simp]: "rcu_read_unlock (rcu_read_lock s) = s"
  by (simp add: rcu_read_unlock_def rcu_read_lock_def)

lemma trace_at_rcu_read_lock [simp]: "trace_at (rcu_read_lock s) t = trace_at s t"
  by (simp add: trace_at_def rcu_read_lock_def)

lemma trace_at_frame [simp]:
  "trace_at (s\<lparr>sessions := a\<rparr>) t = trace_at s t"
  "trace_at (s\<lparr>streams := b\<rparr>) t = trace_at s t"
  "trace_at (s\<lparr>viewer_streams := c\<rparr>) t = trace_at s t"
  "trace_at (s\<lparr>viewer_sessions := d\<rparr>) t = trace_at s t"
  "trace_at (s\<lparr>last_relay_ctf_trace_id := e\<rparr>) t = trace_at s t"
  "trace_at (s\<lparr>rcu_read_nesting := f\<rparr>) t = trace_at s t"
  "trace_at (s\<lparr>rcu_callbacks := g\<rparr>) t = trace_at s t"
  by (simp_all add: trace_at_def)

lemma set_trace_same: "trace_at s trace = Some tr \<Longrightarrow> set_trace trace tr s = s"
  by (auto simp: trace_at_def set_trace_def list_update_same_conv split: if_splits)

lemma trace_at_set_trace:
  "trace < length (traces s) \<Longrightarrow>
   trace_at (set_trace trace tr s) t = (if t = trace then Some tr else trace_at s t)"
  by (simp add: trace_at_def set_trace_def)

lemma trace_at_Some_length: "trace_at s trace = Some tr \<Longrightarrow> trace < length (traces s)"
  by (simp add: trace_at_def split: if_splits)

lemma example_trace_at: "trace_at example_state 0 = Some example_trace"
  by (simp add: trace_at_def example_state_def)

section \<open>Acquiring a reference from a lookup\<close>

text \<open>
  Claim C3. For a live trace object, called as the source requires (inside a read-side
  critical section, or by a caller that owns a reference), \<open>ctf_trace_get\<close> returns
  true exactly when the count was greater than zero before the call, and then the count
  is one more; when the count was zero it returns false and the state, the count with
  it, is as before.
\<close>

theorem ctf_trace_get_try_acquire:
  assumes "trace_at s trace = Some tr"
    and "0 < rcu_read_nesting s \<or> 0 < trace_ref tr"
  shows "\<exists>got s'. ctf_trace_get trace s = Inr (got, s') \<and>
           (got \<longleftrightarrow> 0 < trace_ref tr) \<and>
           (0 < trace_ref tr \<longrightarrow>
              s' = set_trace trace (tr\<lparr>trace_ref := trace_ref tr + 1\<rparr>) s) \<and>
           (trace_ref tr = 0 \<longrightarrow> s' = s)"
proof (cases "trace_ref tr = 0")
  case True
  with assms have "0 < rcu_read_nesting s" by simp
  with True assms(1) show ?thesis
    by (auto simp: ctf_trace_get_def urcu_ref_get_unless_zero_def set_trace_same)
next
  case False
  with assms(1) show ?thesis
    by (auto simp: ctf_trace_get_def urcu_ref_get_unless_zero_def)
qed

theorem ctf_trace_get_try_acquire_witness:
  "ctf_trace_get 0 example_state =
     Inr (True, set_trace 0 (example_trace\<lparr>trace_ref := 2\<rparr>) example_state) \<and>
   ctf_trace_get 0 (rcu_read_lock (set_trace 0 (example_trace\<lparr>trace_ref := 0\<rparr>) example_state)) =
     Inr (False, rcu_read_lock (set_trace 0 (example_trace\<lparr>trace_ref := 0\<rparr>) example_state))"
proof -
  have owned: "0 < rcu_read_nesting example_state \<or> 0 < trace_ref example_trace"
    by (simp add: example_trace_def)
  let ?dying = "rcu_read_lock (set_trace 0 (example_trace\<lparr>trace_ref := 0\<rparr>) example_state)"
  have at: "trace_at ?dying 0 = Some (example_trace\<lparr>trace_ref := 0\<rparr>)"
    by (simp add: trace_at_def rcu_read_lock_def set_trace_def example_state_def)
  have reader: "0 < rcu_read_nesting ?dying \<or> 0 < trace_ref (example_trace\<lparr>trace_ref := 0\<rparr>)"
    by (simp add: rcu_read_lock_def)
  from ctf_trace_get_try_acquire [OF example_trace_at owned]
  have "ctf_trace_get 0 example_state =
     Inr (True, set_trace 0 (example_trace\<lparr>trace_ref := 2\<rparr>) example_state)"
    by (auto simp: example_trace_def numeral_2_eq_2)
  moreover from ctf_trace_get_try_acquire [OF at reader]
  have "ctf_trace_get 0 ?dying = Inr (False, ?dying)"
    by auto
  ultimately show ?thesis by simp
qed

section \<open>The viewer metadata stream of a trace\<close>

lemma vstream_ref_same: "vstream_ref vs = n \<Longrightarrow> vs\<lparr>vstream_ref := n\<rparr> = vs"
  by auto

lemma viewer_streams_same:
  "viewer_streams s v = Some vs \<Longrightarrow> s\<lparr>viewer_streams := (viewer_streams s)(v \<mapsto> vs)\<rparr> = s"
  by (simp add: fun_upd_idem)

text \<open>
  Claim C9. \<open>ctf_trace_get_viewer_metadata_stream\<close> returns null when the trace has no
  viewer metadata stream published; when one is published it returns it with one more
  reference if the count of the stream was greater than zero, and null, with the state
  as before, if that count was zero; whatever it returns, the traces are as before.
\<close>

theorem ctf_trace_get_viewer_metadata_stream_spec:
  assumes "trace_at s trace = Some tr"
  shows "(viewer_metadata_stream tr = None \<longrightarrow>
            ctf_trace_get_viewer_metadata_stream trace s = Inr (None, s)) \<and>
         (\<forall>vstream vs.
            viewer_metadata_stream tr = Some vstream \<and> viewer_streams s vstream = Some vs \<longrightarrow>
              (0 < vstream_ref vs \<longrightarrow>
                 ctf_trace_get_viewer_metadata_stream trace s =
                   Inr (Some vstream,
                        s\<lparr>viewer_streams := (viewer_streams s)
                              (vstream \<mapsto> vs\<lparr>vstream_ref := vstream_ref vs + 1\<rparr>)\<rparr>)) \<and>
              (vstream_ref vs = 0 \<longrightarrow>
                 ctf_trace_get_viewer_metadata_stream trace s = Inr (None, s))) \<and>
         (\<forall>r s'. ctf_trace_get_viewer_metadata_stream trace s = Inr (r, s') \<longrightarrow>
            traces s' = traces s \<and> trace_at s' trace = Some tr)"
proof -
  have unpublished: "viewer_metadata_stream tr = None \<longrightarrow>
      ctf_trace_get_viewer_metadata_stream trace s = Inr (None, s)"
    using assms by (simp add: ctf_trace_get_viewer_metadata_stream_def)
  have published: "ctf_trace_get_viewer_metadata_stream trace s =
        (if 0 < vstream_ref vs
         then Inr (Some vstream,
                   s\<lparr>viewer_streams := (viewer_streams s)
                         (vstream \<mapsto> vs\<lparr>vstream_ref := vstream_ref vs + 1\<rparr>)\<rparr>)
         else Inr (None, s))"
    if "viewer_metadata_stream tr = Some vstream" "viewer_streams s vstream = Some vs"
    for vstream vs
    using assms that
    by (simp add: ctf_trace_get_viewer_metadata_stream_def viewer_stream_get_def
        urcu_ref_get_unless_zero_def rcu_read_lock_def rcu_read_unlock_def Let_def
        vstream_ref_same viewer_streams_same)
  have missing: "ctf_trace_get_viewer_metadata_stream trace s = Inl InvalidPointer"
    if "viewer_metadata_stream tr = Some vstream" "viewer_streams s vstream = None"
    for vstream
    using assms that
    by (simp add: ctf_trace_get_viewer_metadata_stream_def viewer_stream_get_def
        rcu_read_lock_def Let_def)
  have frame: "traces s' = traces s \<and> trace_at s' trace = Some tr"
    if ret: "ctf_trace_get_viewer_metadata_stream trace s = Inr (r, s')" for r s'
  proof (cases "viewer_metadata_stream tr")
    case None
    with unpublished ret assms show ?thesis by simp
  next
    case (Some vstream)
    show ?thesis
    proof (cases "viewer_streams s vstream")
      case None
      with missing [OF Some] ret show ?thesis by simp
    next
      case (Some vs)
      from published [OF \<open>viewer_metadata_stream tr = Some vstream\<close> Some] ret assms
      show ?thesis by (cases "0 < vstream_ref vs") auto
    qed
  qed
  show ?thesis
  proof (intro conjI allI impI)
    show "ctf_trace_get_viewer_metadata_stream trace s = Inr (None, s)"
      if "viewer_metadata_stream tr = None"
      using that unpublished by simp
  next
    fix vstream vs
    assume h: "viewer_metadata_stream tr = Some vstream \<and> viewer_streams s vstream = Some vs"
    show "ctf_trace_get_viewer_metadata_stream trace s =
        Inr (Some vstream,
             s\<lparr>viewer_streams := (viewer_streams s)
                   (vstream \<mapsto> vs\<lparr>vstream_ref := vstream_ref vs + 1\<rparr>)\<rparr>)"
      if "0 < vstream_ref vs"
      using published [of vstream vs] h that by simp
    show "ctf_trace_get_viewer_metadata_stream trace s = Inr (None, s)"
      if "vstream_ref vs = 0"
      using published [of vstream vs] h that by simp
  next
    fix r s'
    assume "ctf_trace_get_viewer_metadata_stream trace s = Inr (r, s')"
    then show "traces s' = traces s" and "trace_at s' trace = Some tr"
      using frame by blast+
  qed
qed

theorem ctf_trace_get_viewer_metadata_stream_spec_witness:
  "ctf_trace_get_viewer_metadata_stream 0 example_state =
     Inr (Some 0, example_state\<lparr>viewer_streams := [0 \<mapsto> \<lparr>vstream_ref = 2\<rparr>]\<rparr>) \<and>
   ctf_trace_get_viewer_metadata_stream 0
       (example_state\<lparr>viewer_streams := [0 \<mapsto> \<lparr>vstream_ref = 0\<rparr>]\<rparr>) =
     Inr (None, example_state\<lparr>viewer_streams := [0 \<mapsto> \<lparr>vstream_ref = 0\<rparr>]\<rparr>)"
proof -
  let ?gone = "example_state\<lparr>viewer_streams := [0 \<mapsto> \<lparr>vstream_ref = 0\<rparr>]\<rparr>"
  have at: "trace_at ?gone 0 = Some example_trace"
    by (simp add: example_trace_at)
  have vms: "viewer_metadata_stream example_trace = Some 0"
    by (simp add: example_trace_def)
  have live: "viewer_streams example_state 0 = Some \<lparr>vstream_ref = 1\<rparr>"
    by (simp add: example_state_def)
  have dead: "viewer_streams ?gone 0 = Some \<lparr>vstream_ref = 0\<rparr>"
    by simp
  from ctf_trace_get_viewer_metadata_stream_spec [OF example_trace_at] vms live
  have "ctf_trace_get_viewer_metadata_stream 0 example_state =
     Inr (Some 0, example_state\<lparr>viewer_streams :=
        (viewer_streams example_state)(0 \<mapsto> \<lparr>vstream_ref = 1\<rparr>\<lparr>vstream_ref := vstream_ref \<lparr>vstream_ref = 1\<rparr> + 1\<rparr>)\<rparr>)"
    by (metis relay_viewer_stream.select_convs(1) zero_less_one)
  then have "ctf_trace_get_viewer_metadata_stream 0 example_state =
     Inr (Some 0, example_state\<lparr>viewer_streams := [0 \<mapsto> \<lparr>vstream_ref = 2\<rparr>]\<rparr>)"
    by (simp add: example_state_def numeral_2_eq_2)
  moreover from ctf_trace_get_viewer_metadata_stream_spec [OF at] vms dead
  have "ctf_trace_get_viewer_metadata_stream 0 ?gone = Inr (None, ?gone)"
    by (metis relay_viewer_stream.select_convs(1))
  ultimately show ?thesis by simp
qed

section \<open>Closing the streams of a trace\<close>

lemma try_close_idem [simp]: "try_close (try_close r) = try_close r"
  by (cases r) simp_all

lemma close_stream_idem [simp]: "close_stream (close_stream st) = close_stream st"
  by (simp add: close_stream_def)

lemma try_stream_close_streams:
  "try_stream_close stream s = s\<lparr>streams := close_linked [stream] (streams s)\<rparr>"
proof (cases "streams s stream")
  case None
  then have "close_linked [stream] (streams s) = streams s"
    by (auto simp: close_linked_def)
  with None show ?thesis by (simp add: try_stream_close_def)
next
  case (Some st)
  then have "close_linked [stream] (streams s) = (streams s)(stream \<mapsto> close_stream st)"
    by (auto simp: close_linked_def)
  with Some show ?thesis by (simp add: try_stream_close_def close_stream_def)
qed

lemma close_linked_Cons:
  "close_linked rest (close_linked [stream] m) = close_linked (stream # rest) m"
  by (rule ext) (auto simp: close_linked_def option.map_comp comp_def)

lemma close_each_stream_streams:
  "close_each_stream linked s = s\<lparr>streams := close_linked linked (streams s)\<rparr>"
proof (induction linked arbitrary: s)
  case Nil
  have "close_linked [] (streams s) = streams s" by (simp add: close_linked_def)
  then show ?case by simp
next
  case (Cons stream rest)
  then show ?case by (simp add: try_stream_close_streams close_linked_Cons)
qed

lemma close_linked_idem: "close_linked linked (close_linked linked m) = close_linked linked m"
  by (rule ext) (auto simp: close_linked_def option.map_comp comp_def)

lemma ctf_trace_close_eq:
  assumes "trace_at s trace = Some tr" and "stream_list tr = Some linked"
  shows "ctf_trace_close trace s = Inr (0, s\<lparr>streams := close_linked linked (streams s)\<rparr>)"
  using assms
  by (simp add: ctf_trace_close_def close_each_stream_streams rcu_read_lock_def
      rcu_read_unlock_def Let_def)

text \<open>
  Claim C5. For a trace whose list head is initialised, \<open>ctf_trace_close\<close> returns 0;
  every stream linked in the list has had \<open>try_close\<close> applied and every other stream
  is as before; the traces, the count of the closed trace among them, are as before; and
  a second close returns 0 again and changes nothing.
\<close>

theorem ctf_trace_close_spec:
  assumes "trace_at s trace = Some tr" and "stream_list tr = Some linked"
  shows "\<exists>s'. ctf_trace_close trace s = Inr (0, s') \<and>
           (\<forall>stream \<in> set linked.
              streams s' stream = map_option close_stream (streams s stream)) \<and>
           (\<forall>stream. stream \<notin> set linked \<longrightarrow> streams s' stream = streams s stream) \<and>
           traces s' = traces s \<and>
           trace_at s' trace = Some tr \<and>
           ctf_trace_close trace s' = Inr (0, s')"
proof -
  let ?s' = "s\<lparr>streams := close_linked linked (streams s)\<rparr>"
  have first: "ctf_trace_close trace s = Inr (0, ?s')"
    using assms by (rule ctf_trace_close_eq)
  have at: "trace_at ?s' trace = Some tr"
    using assms(1) by simp
  have "ctf_trace_close trace ?s' = Inr (0, ?s'\<lparr>streams := close_linked linked (streams ?s')\<rparr>)"
    using at assms(2) by (rule ctf_trace_close_eq)
  then have again: "ctf_trace_close trace ?s' = Inr (0, ?s')"
    by (simp add: close_linked_idem)
  from first at again show ?thesis
    by (simp add: close_linked_def)
qed

theorem ctf_trace_close_spec_witness:
  "(\<exists>s'. ctf_trace_close 0 busy_state = Inr (0, s') \<and>
      streams s' 0 = Some \<lparr>stream_state = Closing\<rparr> \<and>
      streams s' 1 = Some \<lparr>stream_state = Closing\<rparr> \<and>
      traces s' = traces busy_state \<and>
      ctf_trace_close 0 s' = Inr (0, s'))"
proof -
  have at: "trace_at busy_state 0 = Some (example_trace\<lparr>stream_list := Some [0, 1]\<rparr>)"
    by (simp add: busy_state_def trace_at_def example_state_def set_trace_def)
  have linked: "stream_list (example_trace\<lparr>stream_list := Some [0, 1]\<rparr>) = Some [0, 1]"
    by simp
  from ctf_trace_close_spec [OF at linked] obtain s' where
    s': "ctf_trace_close 0 busy_state = Inr (0, s')"
      "\<forall>stream \<in> set [0, 1]. streams s' stream = map_option close_stream (streams busy_state stream)"
      "traces s' = traces busy_state" "ctf_trace_close 0 s' = Inr (0, s')"
    by blast
  from s'(2) have "streams s' 0 = Some \<lparr>stream_state = Closing\<rparr>"
    and "streams s' 1 = Some \<lparr>stream_state = Closing\<rparr>"
    by (simp_all add: busy_state_def example_state_def set_trace_def close_stream_def)
  with s'(1,3,4) show ?thesis by blast
qed

section \<open>Releasing the last reference of a trace\<close>

lemma set_session_simps [simp]:
  "sessions (set_session sp se s) = (sessions s)(sp \<mapsto> se)"
  "traces (set_session sp se s) = traces s"
  "rcu_read_nesting (set_session sp se s) = rcu_read_nesting s"
  "rcu_callbacks (set_session sp se s) = rcu_callbacks s"
  "last_relay_ctf_trace_id (set_session sp se s) = last_relay_ctf_trace_id s"
  "viewer_sessions (set_session sp se s) = viewer_sessions s"
  "trace_at (set_session sp se s) t = trace_at s t"
  by (simp_all add: set_session_def)

lemma set_trace_simps [simp]:
  "sessions (set_trace t tr s) = sessions s"
  "traces (set_trace t tr s) = (traces s)[t := Some tr]"
  "rcu_read_nesting (set_trace t tr s) = rcu_read_nesting s"
  "rcu_callbacks (set_trace t tr s) = rcu_callbacks s"
  "last_relay_ctf_trace_id (set_trace t tr s) = last_relay_ctf_trace_id s"
  by (simp_all add: set_trace_def)

lemma ctf_trace_put_last:
  assumes "trace_at s trace = Some tr" and "trace_ref tr = 1"
    and "trace_session tr = Some sp" and "sessions s sp = Some se"
    and "trace \<in> snd ` set (ctf_traces_ht se)" and "stream_list tr = Some []"
    and "0 < session_ref se"
  shows "ctf_trace_put trace s =
           Inr (s\<lparr>traces := (traces s)
                      [trace := Some (tr\<lparr>trace_ref := 0, trace_session := None,
                                          trace_path := None\<rparr>)],
                  sessions := (sessions s)
                      (sp \<mapsto> se\<lparr>ctf_traces_ht :=
                                     filter (\<lambda>node. snd node \<noteq> trace) (ctf_traces_ht se),
                                   session_ref := session_ref se - 1\<rparr>),
                  rcu_callbacks := rcu_callbacks s @ [trace]\<rparr>)"
proof -
  from assms(1) have len: "trace < length (traces s)" by (rule trace_at_Some_length)
  show ?thesis
    using assms len
    by (simp add: ctf_trace_put_def Let_def urcu_ref_put_def ctf_trace_release_def
        lttng_ht_del_def ctf_trace_destroy_def session_put_def call_rcu_def
        rcu_read_lock_def rcu_read_unlock_def trace_at_set_trace set_trace_def set_session_def
        trace_at_def)
qed

lemma ctf_trace_put_last_needs:
  assumes "ctf_trace_put trace s = Inr s'" and "trace_at s trace = Some tr"
    and "trace_ref tr = 1"
  shows "\<exists>sp se. trace_session tr = Some sp \<and> sessions s sp = Some se \<and>
           trace \<in> snd ` set (ctf_traces_ht se) \<and> stream_list tr = Some [] \<and>
           0 < session_ref se"
proof -
  from assms(2) have len: "trace < length (traces s)" by (rule trace_at_Some_length)
  let ?s2 = "set_trace trace (tr\<lparr>trace_ref := 0\<rparr>) (rcu_read_lock s)"
  from assms len have rel: "\<exists>s3. ctf_trace_release trace ?s2 = Inr s3"
    by (auto simp: ctf_trace_put_def Let_def urcu_ref_put_def split: sum.splits)
  have at2: "trace_at ?s2 trace = Some (tr\<lparr>trace_ref := 0\<rparr>)"
    using len by (simp add: trace_at_def rcu_read_lock_def)
  from rel at2 obtain sp where sp: "trace_session tr = Some sp"
    by (cases "trace_session tr") (auto simp: ctf_trace_release_def)
  from rel at2 sp obtain se where se: "sessions s sp = Some se"
    by (cases "sessions s sp") (auto simp: ctf_trace_release_def rcu_read_lock_def)
  have mem: "trace \<in> snd ` set (ctf_traces_ht se)"
  proof (rule ccontr)
    assume "trace \<notin> snd ` set (ctf_traces_ht se)"
    with rel at2 sp se show False
      by (auto simp: ctf_trace_release_def rcu_read_lock_def lttng_ht_del_def)
  qed
  let ?s3 = "set_session sp
      (se\<lparr>ctf_traces_ht := filter (\<lambda>node. snd node \<noteq> trace) (ctf_traces_ht se)\<rparr>) ?s2"
  from rel at2 sp se mem have des: "\<exists>s4. ctf_trace_destroy trace ?s3 = Inr s4"
    by (auto simp: ctf_trace_release_def rcu_read_lock_def lttng_ht_del_def)
  have at3: "trace_at ?s3 trace = Some (tr\<lparr>trace_ref := 0\<rparr>)"
    using at2 by simp
  from des at3 have sl: "stream_list tr = Some []"
    by (auto simp: ctf_trace_destroy_def split: if_splits)
  from des at3 sl sp se have "0 < session_ref se"
    by (cases "session_ref se = 0")
       (auto simp: ctf_trace_destroy_def session_put_def urcu_ref_put_def rcu_read_lock_def
          split: if_splits)
  with sp se mem sl show ?thesis by simp
qed

lemma traces_rcu_destroy:
  "traces (rcu_destroy_ctf_trace t s) = (traces s)[t := None]"
  by (simp add: rcu_destroy_ctf_trace_def)

lemma fold_rcu_destroy_traces:
  "traces (fold rcu_destroy_ctf_trace cbs s) =
     map (\<lambda>i. if i \<in> set cbs then None else traces s ! i) [0..<length (traces s)]"
proof (induction cbs arbitrary: s)
  case Nil
  show ?case by (simp add: map_nth)
next
  case (Cons t cbs)
  show ?case
    by (auto simp: Cons.IH traces_rcu_destroy nth_list_update)
qed

lemma rcu_grace_period_frees:
  assumes "rcu_read_nesting s = 0" and "trace \<in> set (rcu_callbacks s)"
  shows "trace_at (rcu_grace_period s) trace = None"
  using assms by (simp add: rcu_grace_period_def trace_at_def fold_rcu_destroy_traces)

lemma rcu_grace_period_held_off:
  "0 < rcu_read_nesting s \<Longrightarrow> rcu_grace_period s = s"
  by (simp add: rcu_grace_period_def)

lemma lookup_filtered:
  "lttng_ht_lookup (filter (\<lambda>node. snd node \<noteq> trace) ht) key \<noteq> Some trace"
proof
  assume "lttng_ht_lookup (filter (\<lambda>node. snd node \<noteq> trace) ht) key = Some trace"
  then have "(key, trace) \<in> set (filter (\<lambda>node. snd node \<noteq> trace) ht)"
    unfolding lttng_ht_lookup_def by (rule map_of_SomeD)
  then show False by simp
qed

text \<open>
  Claim C2. When \<open>ctf_trace_put\<close> releases the last reference of a trace and returns,
  the trace was in the table of its session and is in it no more (no lookup returns
  it), its stream list was empty, its memory is still allocated and its destructor is
  queued; the end of the epoch frees it, and not while the thread is in a read-side
  critical section. For a trace that is in the table of its live session and has an empty
  stream list, the release does return.
\<close>

theorem ctf_trace_put_last_reference:
  assumes "trace_at s trace = Some tr" and "trace_ref tr = 1"
  shows "(\<forall>s'. ctf_trace_put trace s = Inr s' \<longrightarrow>
            (\<exists>sp se se'. trace_session tr = Some sp \<and> sessions s sp = Some se \<and>
               sessions s' sp = Some se' \<and>
               trace \<in> snd ` set (ctf_traces_ht se) \<and>
               trace \<notin> snd ` set (ctf_traces_ht se') \<and>
               (\<forall>key. lttng_ht_lookup (ctf_traces_ht se') key \<noteq> Some trace)) \<and>
            stream_list tr = Some [] \<and>
            trace_at s' trace =
              Some (tr\<lparr>trace_ref := 0, trace_session := None, trace_path := None\<rparr>) \<and>
            rcu_callbacks s' = rcu_callbacks s @ [trace] \<and>
            (0 < rcu_read_nesting s' \<longrightarrow> rcu_grace_period s' = s') \<and>
            (rcu_read_nesting s' = 0 \<longrightarrow> trace_at (rcu_grace_period s') trace = None)) \<and>
         (\<forall>sp se. trace_session tr = Some sp \<and> sessions s sp = Some se \<and>
            trace \<in> snd ` set (ctf_traces_ht se) \<and> stream_list tr = Some [] \<and>
            0 < session_ref se \<longrightarrow> (\<exists>s'. ctf_trace_put trace s = Inr s'))"
proof (intro conjI allI impI)
  fix s'
  assume put: "ctf_trace_put trace s = Inr s'"
  from ctf_trace_put_last_needs [OF put assms] obtain sp se where
    wf: "trace_session tr = Some sp" "sessions s sp = Some se"
      "trace \<in> snd ` set (ctf_traces_ht se)" "stream_list tr = Some []" "0 < session_ref se"
    by blast
  from assms(1) have len: "trace < length (traces s)" by (rule trace_at_Some_length)
  let ?se' = "se\<lparr>ctf_traces_ht := filter (\<lambda>node. snd node \<noteq> trace) (ctf_traces_ht se),
                  session_ref := session_ref se - 1\<rparr>"
  from ctf_trace_put_last [OF assms wf(1,2,3,4,5)] put
  have s': "s' = s\<lparr>traces := (traces s)
                      [trace := Some (tr\<lparr>trace_ref := 0, trace_session := None,
                                          trace_path := None\<rparr>)],
                  sessions := (sessions s)(sp \<mapsto> ?se'),
                  rcu_callbacks := rcu_callbacks s @ [trace]\<rparr>"
    by simp
  have "sessions s' sp = Some ?se'" by (simp add: s')
  moreover have "trace \<notin> snd ` set (ctf_traces_ht ?se')" by auto
  moreover have "\<forall>key. lttng_ht_lookup (ctf_traces_ht ?se') key \<noteq> Some trace"
    by (simp add: lookup_filtered)
  ultimately show "\<exists>sp se se'. trace_session tr = Some sp \<and> sessions s sp = Some se \<and>
               sessions s' sp = Some se' \<and>
               trace \<in> snd ` set (ctf_traces_ht se) \<and>
               trace \<notin> snd ` set (ctf_traces_ht se') \<and>
               (\<forall>key. lttng_ht_lookup (ctf_traces_ht se') key \<noteq> Some trace)"
    using wf by blast
  show "stream_list tr = Some []" by (rule wf(4))
  show "trace_at s' trace =
      Some (tr\<lparr>trace_ref := 0, trace_session := None, trace_path := None\<rparr>)"
    using len by (simp add: s' trace_at_def)
  show cbs: "rcu_callbacks s' = rcu_callbacks s @ [trace]" by (simp add: s')
  show "rcu_grace_period s' = s'" if "0 < rcu_read_nesting s'"
    using that by (rule rcu_grace_period_held_off)
  show "trace_at (rcu_grace_period s') trace = None" if "rcu_read_nesting s' = 0"
    using that cbs by (simp add: rcu_grace_period_frees)
next
  fix sp se
  assume "trace_session tr = Some sp \<and> sessions s sp = Some se \<and>
            trace \<in> snd ` set (ctf_traces_ht se) \<and> stream_list tr = Some [] \<and>
            0 < session_ref se"
  then show "\<exists>s'. ctf_trace_put trace s = Inr s'"
    using ctf_trace_put_last [OF assms, of sp se] by simp
qed

theorem ctf_trace_put_last_reference_witness:
  "(\<exists>s'. ctf_trace_put 0 example_state = Inr s' \<and>
      map_option ctf_traces_ht (sessions s' 0) = Some [] \<and>
      trace_at s' 0 = Some (example_trace\<lparr>trace_ref := 0, trace_session := None,
                                           trace_path := None\<rparr>) \<and>
      rcu_callbacks s' = [0] \<and>
      trace_at (rcu_grace_period s') 0 = None)"
proof -
  have one: "trace_ref example_trace = 1" by (simp add: example_trace_def)
  note put = ctf_trace_put_last_reference [OF example_trace_at one]
  have "trace_session example_trace = Some 0 \<and> sessions example_state 0 = Some example_session \<and>
      0 \<in> snd ` set (ctf_traces_ht example_session) \<and> stream_list example_trace = Some [] \<and>
      0 < session_ref example_session"
    by (simp add: example_trace_def example_state_def example_session_def)
  with put obtain s' where s': "ctf_trace_put 0 example_state = Inr s'" by blast
  with put obtain sp se se' where
    se: "trace_session example_trace = Some sp" "sessions example_state sp = Some se"
      "sessions s' sp = Some se'" "0 \<notin> snd ` set (ctf_traces_ht se')"
    and at: "trace_at s' 0 = Some (example_trace\<lparr>trace_ref := 0, trace_session := None,
                                           trace_path := None\<rparr>)"
    and cbs: "rcu_callbacks s' = rcu_callbacks example_state @ [0]"
    and free: "rcu_read_nesting s' = 0 \<longrightarrow> trace_at (rcu_grace_period s') 0 = None"
    by blast
  from s' have s'_eq: "s' = example_state
      \<lparr>traces := [Some (example_trace\<lparr>trace_ref := 0, trace_session := None, trace_path := None\<rparr>)],
       sessions := [0 \<mapsto> example_session\<lparr>ctf_traces_ht := [], session_ref := 1\<rparr>],
       rcu_callbacks := [0]\<rparr>"
    by (simp add: ctf_trace_put_def Let_def urcu_ref_put_def ctf_trace_release_def
        lttng_ht_del_def ctf_trace_destroy_def session_put_def call_rcu_def
        rcu_read_lock_def rcu_read_unlock_def set_trace_def set_session_def
        trace_at_def example_state_def example_trace_def example_session_def)
  have "map_option ctf_traces_ht (sessions s' 0) = Some []" by (simp add: s'_eq)
  moreover have "rcu_callbacks s' = [0]" by (simp add: s'_eq)
  moreover have "rcu_read_nesting s' = 0" by (simp add: s'_eq example_state_def)
  ultimately show ?thesis using s' at free by blast
qed

section \<open>Creating a trace\<close>

lemma ctf_trace_create_unpublished_ok:
  assumes "zmalloc_succeeds env" and "strdup_succeeds env"
    and "sessions s session = Some se" and "0 < session_ref se"
  shows "ctf_trace_create_unpublished env session subpath s =
           Inr (Some (length (traces s)),
                s\<lparr>traces := traces s @
                      [Some (new_ctf_trace session subpath (last_relay_ctf_trace_id s + 1))],
                  sessions := (sessions s)(session \<mapsto> se\<lparr>session_ref := session_ref se + 1\<rparr>),
                  last_relay_ctf_trace_id := last_relay_ctf_trace_id s + 1\<rparr>)"
  using assms
  by (simp add: ctf_trace_create_unpublished_def zmalloc_def strdup_def Let_def update_trace_def
      session_get_def urcu_ref_get_unless_zero_def urcu_ref_init_def set_session_def
      zeroed_ctf_trace_def new_ctf_trace_def)

lemma ctf_trace_create_unpublished_oom:
  "\<not> zmalloc_succeeds env \<Longrightarrow> ctf_trace_create_unpublished env session subpath s = Inr (None, s)"
  by (simp add: ctf_trace_create_unpublished_def zmalloc_def)

lemma ctf_trace_create_unpublished_bad_session:
  "zmalloc_succeeds env \<Longrightarrow> sessions s session = None \<Longrightarrow>
   ctf_trace_create_unpublished env session subpath s = Inl InvalidPointer"
  by (simp add: ctf_trace_create_unpublished_def zmalloc_def Let_def update_trace_def
      session_get_def)

lemma ctf_trace_create_unpublished_session_vanishing:
  assumes "zmalloc_succeeds env" and "sessions s session = Some se" and "session_ref se = 0"
  shows "ctf_trace_create_unpublished env session subpath s = Inl NullDereference"
  using assms
  by (simp add: ctf_trace_create_unpublished_def zmalloc_def Let_def update_trace_def
      session_get_def urcu_ref_get_unless_zero_def urcu_ref_init_def set_session_def
      zeroed_ctf_trace_def ctf_trace_create_error_def ctf_trace_put_def rcu_read_lock_def
      trace_at_def urcu_ref_put_def set_trace_def ctf_trace_release_def)

lemma ctf_trace_create_unpublished_strdup_fails:
  assumes "zmalloc_succeeds env" and "\<not> strdup_succeeds env"
    and "sessions s session = Some se" and "0 < session_ref se"
  shows "ctf_trace_create_unpublished env session subpath s = Inl AssertionFailure"
  using assms
  by (simp add: ctf_trace_create_unpublished_def zmalloc_def strdup_def Let_def update_trace_def
      session_get_def urcu_ref_get_unless_zero_def urcu_ref_init_def set_session_def
      zeroed_ctf_trace_def ctf_trace_create_error_def ctf_trace_put_def rcu_read_lock_def
      trace_at_def urcu_ref_put_def set_trace_def ctf_trace_release_def lttng_ht_del_def
      ctf_trace_destroy_def)

lemma ctf_trace_create_unpublished_Some:
  assumes "ctf_trace_create_unpublished env session subpath s = Inr (Some trace, s1)"
  shows "zmalloc_succeeds env \<and> strdup_succeeds env \<and>
         (\<exists>se. sessions s session = Some se \<and> 0 < session_ref se)"
proof -
  have z: "zmalloc_succeeds env"
    using assms ctf_trace_create_unpublished_oom [of env session subpath s] by auto
  obtain se where se: "sessions s session = Some se"
    using assms z ctf_trace_create_unpublished_bad_session [of env s session subpath]
    by (cases "sessions s session") auto
  have r: "0 < session_ref se"
    using assms z se ctf_trace_create_unpublished_session_vanishing [of env s session se subpath]
    by (cases "session_ref se = 0") auto
  have "strdup_succeeds env"
    using assms z se r ctf_trace_create_unpublished_strdup_fails [of env s session se subpath]
    by auto
  with z se r show ?thesis by simp
qed

lemma ctf_trace_create_unpublished_None:
  assumes "ctf_trace_create_unpublished env session subpath s = Inr (None, s')"
  shows "\<not> zmalloc_succeeds env \<and> s' = s"
proof (cases "zmalloc_succeeds env")
  case False
  with assms ctf_trace_create_unpublished_oom [of env session subpath s] show ?thesis by simp
next
  case z: True
  show ?thesis
  proof (cases "sessions s session")
    case None
    with assms z ctf_trace_create_unpublished_bad_session [of env s session subpath]
    show ?thesis by simp
  next
    case (Some se)
    show ?thesis
    proof (cases "session_ref se = 0")
      case True
      with assms z Some ctf_trace_create_unpublished_session_vanishing [of env s session se subpath]
      show ?thesis by simp
    next
      case r: False
      show ?thesis
      proof (cases "strdup_succeeds env")
        case True
        with assms z Some r ctf_trace_create_unpublished_ok [of env s session se subpath]
        show ?thesis by simp
      next
        case False
        with assms z Some r ctf_trace_create_unpublished_strdup_fails [of env s session se subpath]
        show ?thesis by simp
      qed
    qed
  qed
qed

lemma ctf_trace_create_ok:
  assumes "zmalloc_succeeds env" and "strdup_succeeds env"
    and "sessions s session = Some se" and "0 < session_ref se"
  shows "ctf_trace_create env session subpath s =
           Inr (Some (length (traces s)),
                s\<lparr>traces := traces s @
                      [Some (new_ctf_trace session subpath (last_relay_ctf_trace_id s + 1))],
                  sessions := (sessions s)
                      (session \<mapsto> se\<lparr>session_ref := session_ref se + 1,
                                       ctf_traces_ht :=
                                         (subpath, length (traces s)) # ctf_traces_ht se\<rparr>),
                  last_relay_ctf_trace_id := last_relay_ctf_trace_id s + 1\<rparr>)"
  by (simp add: ctf_trace_create_def ctf_trace_create_unpublished_ok [OF assms]
      publish_trace_def trace_at_def new_ctf_trace_def lttng_ht_add_str_def set_session_def)

lemma ctf_trace_create_Some:
  assumes "ctf_trace_create env session subpath s = Inr (Some trace, s')"
  shows "\<exists>s1. ctf_trace_create_unpublished env session subpath s = Inr (Some trace, s1)"
  using assms
  by (auto simp: ctf_trace_create_def split: sum.splits option.splits)

lemma ctf_trace_create_None:
  assumes "ctf_trace_create env session subpath s = Inr (None, s')"
  shows "\<not> zmalloc_succeeds env \<and> s' = s"
proof -
  from assms have "ctf_trace_create_unpublished env session subpath s = Inr (None, s')"
    by (auto simp: ctf_trace_create_def split: sum.splits option.splits)
  then show ?thesis by (rule ctf_trace_create_unpublished_None)
qed

lemma table_constructed_create:
  assumes "sessions s session = Some se" and "table_constructed s sp"
  shows "table_constructed
           (s\<lparr>traces := traces s @ [Some (new_ctf_trace session subpath new_id)],
              sessions := (sessions s)
                  (session \<mapsto> se\<lparr>session_ref := session_ref se + 1,
                                   ctf_traces_ht :=
                                     (subpath, length (traces s)) # ctf_traces_ht se\<rparr>),
              last_relay_ctf_trace_id := new_id\<rparr>) sp"
proof -
  have old: "trace_at (s\<lparr>traces := traces s @ [x]\<rparr>) t = Some tr"
    if "trace_at s t = Some tr" for t tr x
    using that by (auto simp: trace_at_def nth_append split: if_splits)
  show ?thesis
  proof (cases "sp = session")
    case True
    with assms show ?thesis
      by (auto simp: table_constructed_def list_all_iff trace_at_def nth_append
          new_ctf_trace_def split: option.splits if_splits)
  next
    case False
    with assms show ?thesis
      by (auto simp: table_constructed_def list_all_iff trace_at_def nth_append
          split: option.splits if_splits)
  qed
qed

text \<open>
  Claim C4. When \<open>ctf_trace_create\<close> reaches its call of \<^verbatim>\<open>lttng_ht_add_str\<close>,
  no table has changed yet and the new trace has its count at 1 and its identifier,
  path, session pointer, list head and node key set; the call then adds the node of that
  trace to the table of the session and changes nothing else. A creation that returns
  null has changed nothing. So a table whose nodes all belong to constructed traces
  keeps that property through \<open>ctf_trace_create\<close>.
\<close>

theorem ctf_trace_create_publishes_constructed:
  "(\<forall>trace s1.
      ctf_trace_create_unpublished env session subpath s = Inr (Some trace, s1) \<longrightarrow>
        trace = length (traces s) \<and>
        (\<forall>sp. map_option ctf_traces_ht (sessions s1 sp) =
              map_option ctf_traces_ht (sessions s sp)) \<and>
        trace_at s1 trace =
          Some (new_ctf_trace session subpath (last_relay_ctf_trace_id s + 1)) \<and>
        (\<exists>se1. sessions s1 session = Some se1 \<and>
           ctf_trace_create env session subpath s =
             Inr (Some trace,
                  set_session session
                    (se1\<lparr>ctf_traces_ht := (subpath, trace) # ctf_traces_ht se1\<rparr>) s1))) \<and>
   (\<forall>trace s'.
      ctf_trace_create env session subpath s = Inr (Some trace, s') \<longrightarrow>
        (\<exists>s1. ctf_trace_create_unpublished env session subpath s = Inr (Some trace, s1)) \<and>
        trace_at s' trace =
          Some (new_ctf_trace session subpath (last_relay_ctf_trace_id s + 1))) \<and>
   (\<forall>s'. ctf_trace_create env session subpath s = Inr (None, s') \<longrightarrow> s' = s) \<and>
   (\<forall>r s' sp.
      ctf_trace_create env session subpath s = Inr (r, s') \<and> table_constructed s sp \<longrightarrow>
        table_constructed s' sp)"
proof (intro conjI allI impI)
  fix trace s1
  assume un: "ctf_trace_create_unpublished env session subpath s = Inr (Some trace, s1)"
  from ctf_trace_create_unpublished_Some [OF un] obtain se where
    ok: "zmalloc_succeeds env" "strdup_succeeds env" "sessions s session = Some se"
      "0 < session_ref se"
    by blast
  note eq = ctf_trace_create_unpublished_ok [OF ok, of subpath]
  from un eq have t: "trace = length (traces s)" by simp
  from un eq have s1: "s1 = s\<lparr>traces := traces s @
                      [Some (new_ctf_trace session subpath (last_relay_ctf_trace_id s + 1))],
                  sessions := (sessions s)(session \<mapsto> se\<lparr>session_ref := session_ref se + 1\<rparr>),
                  last_relay_ctf_trace_id := last_relay_ctf_trace_id s + 1\<rparr>"
    by simp
  show "trace = length (traces s)" by (rule t)
  show "map_option ctf_traces_ht (sessions s1 sp) = map_option ctf_traces_ht (sessions s sp)"
    for sp
    using ok(3) by (simp add: s1)
  show "trace_at s1 trace =
      Some (new_ctf_trace session subpath (last_relay_ctf_trace_id s + 1))"
    by (simp add: s1 t trace_at_def)
  have "sessions s1 session = Some (se\<lparr>session_ref := session_ref se + 1\<rparr>)"
    by (simp add: s1)
  moreover have "ctf_trace_create env session subpath s =
      Inr (Some trace,
           set_session session
             (se\<lparr>session_ref := session_ref se + 1\<rparr>
                \<lparr>ctf_traces_ht := (subpath, trace) #
                   ctf_traces_ht (se\<lparr>session_ref := session_ref se + 1\<rparr>)\<rparr>) s1)"
    by (simp add: ctf_trace_create_ok [OF ok] s1 t set_session_def)
  ultimately show "\<exists>se1. sessions s1 session = Some se1 \<and>
           ctf_trace_create env session subpath s =
             Inr (Some trace,
                  set_session session
                    (se1\<lparr>ctf_traces_ht := (subpath, trace) # ctf_traces_ht se1\<rparr>) s1)"
    by blast
next
  fix trace s'
  assume cr: "ctf_trace_create env session subpath s = Inr (Some trace, s')"
  from ctf_trace_create_Some [OF cr]
  show un: "\<exists>s1. ctf_trace_create_unpublished env session subpath s = Inr (Some trace, s1)" .
  then obtain s1 where "ctf_trace_create_unpublished env session subpath s = Inr (Some trace, s1)"
    by blast
  from ctf_trace_create_unpublished_Some [OF this] obtain se where
    ok: "zmalloc_succeeds env" "strdup_succeeds env" "sessions s session = Some se"
      "0 < session_ref se"
    by blast
  from cr ctf_trace_create_ok [OF ok, of subpath]
  show "trace_at s' trace =
      Some (new_ctf_trace session subpath (last_relay_ctf_trace_id s + 1))"
    by (auto simp: trace_at_def)
next
  fix s'
  assume "ctf_trace_create env session subpath s = Inr (None, s')"
  from ctf_trace_create_None [OF this] show "s' = s" by simp
next
  fix r s' sp
  assume h: "ctf_trace_create env session subpath s = Inr (r, s') \<and> table_constructed s sp"
  show "table_constructed s' sp"
  proof (cases r)
    case None
    with h ctf_trace_create_None [of env session subpath s s'] show ?thesis by simp
  next
    case (Some trace)
    with h have cr: "ctf_trace_create env session subpath s = Inr (Some trace, s')" by simp
    from ctf_trace_create_Some [OF cr] obtain s1 where
      "ctf_trace_create_unpublished env session subpath s = Inr (Some trace, s1)"
      by blast
    from ctf_trace_create_unpublished_Some [OF this] obtain se where
      ok: "zmalloc_succeeds env" "strdup_succeeds env" "sessions s session = Some se"
        "0 < session_ref se"
      by blast
    from cr ctf_trace_create_ok [OF ok, of subpath]
    have "s' = s\<lparr>traces := traces s @
                      [Some (new_ctf_trace session subpath (last_relay_ctf_trace_id s + 1))],
                  sessions := (sessions s)
                      (session \<mapsto> se\<lparr>session_ref := session_ref se + 1,
                                       ctf_traces_ht :=
                                         (subpath, length (traces s)) # ctf_traces_ht se\<rparr>),
                  last_relay_ctf_trace_id := last_relay_ctf_trace_id s + 1\<rparr>"
      by auto
    with table_constructed_create [OF ok(3), where sp = sp and subpath = subpath
        and new_id = "last_relay_ctf_trace_id s + 1"] h
    show ?thesis by simp
  qed
qed

theorem ctf_trace_create_publishes_constructed_witness:
  "\<exists>s1 s'. ctf_trace_create_unpublished example_env 0 ''ust/uid/1000/64-bit'' initial_state =
       Inr (Some 0, s1) \<and>
     map_option ctf_traces_ht (sessions s1 0) = Some [] \<and>
     trace_at s1 0 = Some (new_ctf_trace 0 ''ust/uid/1000/64-bit'' 1) \<and>
     ctf_trace_create example_env 0 ''ust/uid/1000/64-bit'' initial_state = Inr (Some 0, s') \<and>
     map_option ctf_traces_ht (sessions s' 0) = Some [(''ust/uid/1000/64-bit'', 0)] \<and>
     trace_at s' 0 = Some (new_ctf_trace 0 ''ust/uid/1000/64-bit'' 1) \<and>
     table_constructed s' 0"
proof -
  let ?p = "''ust/uid/1000/64-bit''"
  define s1 where "s1 = initial_state\<lparr>traces := traces initial_state @
                 [Some (new_ctf_trace 0 ?p (last_relay_ctf_trace_id initial_state + 1))],
             sessions := (sessions initial_state)
                 (0 \<mapsto> empty_session\<lparr>session_ref := session_ref empty_session + 1\<rparr>),
             last_relay_ctf_trace_id := last_relay_ctf_trace_id initial_state + 1\<rparr>"
  have "ctf_trace_create_unpublished example_env 0 ?p initial_state =
      Inr (Some (length (traces initial_state)), s1)"
    unfolding s1_def
    by (rule ctf_trace_create_unpublished_ok)
       (simp_all add: example_env_def initial_state_def empty_session_def)
  moreover have "length (traces initial_state) = 0" by (simp add: initial_state_def)
  ultimately have un: "ctf_trace_create_unpublished example_env 0 ?p initial_state =
      Inr (Some 0, s1)"
    by (simp only:)
  have last: "last_relay_ctf_trace_id initial_state + 1 = 1" by (simp add: initial_state_def)
  have before: "table_constructed initial_state 0"
    by (simp add: table_constructed_def initial_state_def empty_session_def)
  note publ = ctf_trace_create_publishes_constructed
    [of example_env 0 ?p initial_state, unfolded last]
  from publ un obtain se1 where
    tab: "map_option ctf_traces_ht (sessions s1 0) =
          map_option ctf_traces_ht (sessions initial_state 0)"
    and at1: "trace_at s1 0 = Some (new_ctf_trace 0 ?p 1)"
    and se1: "sessions s1 0 = Some se1"
    and cr: "ctf_trace_create example_env 0 ?p initial_state =
        Inr (Some 0, set_session 0 (se1\<lparr>ctf_traces_ht := (?p, 0) # ctf_traces_ht se1\<rparr>) s1)"
    by blast
  define s' where "s' = set_session 0 (se1\<lparr>ctf_traces_ht := (?p, 0) # ctf_traces_ht se1\<rparr>) s1"
  note cr' = cr [folded s'_def]
  from publ cr' before have after: "table_constructed s' 0" by blast
  from publ cr' have at': "trace_at s' 0 = Some (new_ctf_trace 0 ?p 1)" by blast
  from tab have tab1: "map_option ctf_traces_ht (sessions s1 0) = Some []"
    by (simp add: initial_state_def empty_session_def)
  with se1 have "ctf_traces_ht se1 = []" by simp
  then have tab': "map_option ctf_traces_ht (sessions s' 0) = Some [(?p, 0)]"
    by (simp add: s'_def set_session_def)
  from un tab1 at1 cr' tab' at' after show ?thesis by blast
qed

section \<open>Trace identifiers\<close>

lemma word64_less_inc:
  fixes w :: "64 word"
  assumes "w \<noteq> - 1"
  shows "w < w + 1"
proof -
  have "unat w \<noteq> unat (- 1 :: 64 word)"
    using assms by (simp add: word_unat_eq_iff)
  moreover have "unat w < 2 ^ 64"
    using unsigned_less [of w, where ?'a = nat] by simp
  moreover have "unat (- 1 :: 64 word) = 2 ^ 64 - 1"
    by (simp add: unsigned_minus_1_eq_mask mask_eq_exp_minus_1)
  ultimately have "unat w + 1 < 2 ^ 64"
    by simp
  then have "unat (w + 1) = unat w + 1"
    by (simp add: unat_word_ariths)
  then show ?thesis
    by (simp add: word_less_nat_alt)
qed

lemma ids_boundedD:
  "ids_bounded s \<Longrightarrow> trace_at s t = Some tr \<Longrightarrow> trace_id tr \<le> last_relay_ctf_trace_id s"
  by (auto simp: ids_bounded_def list_all_iff trace_at_def split: if_splits dest!: nth_mem)

text \<open>
  Claim C6, as amended. While the counter has not reached \<open>2 ^ 64 - 1\<close>, a
  successful creation gives the new trace the counter plus one, which becomes the new
  counter and is greater than the identifier of every trace allocated before, given
  that none of them is above the counter; that bound holds again afterwards.
\<close>

theorem trace_id_increases_below_wrap:
  assumes "ctf_trace_create env session subpath s = Inr (Some trace, s')"
    and "last_relay_ctf_trace_id s \<noteq> - 1"
    and "ids_bounded s"
  shows "trace_at s' trace =
           Some (new_ctf_trace session subpath (last_relay_ctf_trace_id s + 1)) \<and>
         last_relay_ctf_trace_id s' = last_relay_ctf_trace_id s + 1 \<and>
         (\<forall>t tr. trace_at s t = Some tr \<longrightarrow> trace_id tr < last_relay_ctf_trace_id s + 1) \<and>
         (\<forall>t tr. t \<noteq> trace \<and> trace_at s' t = Some tr \<longrightarrow>
            trace_id tr < last_relay_ctf_trace_id s + 1) \<and>
         ids_bounded s'"
proof -
  from ctf_trace_create_Some [OF assms(1)] obtain s1 where
    "ctf_trace_create_unpublished env session subpath s = Inr (Some trace, s1)"
    by blast
  from ctf_trace_create_unpublished_Some [OF this] obtain se where
    ok: "zmalloc_succeeds env" "strdup_succeeds env" "sessions s session = Some se"
      "0 < session_ref se"
    by blast
  let ?new = "last_relay_ctf_trace_id s + 1"
  from assms(1) ctf_trace_create_ok [OF ok, of subpath]
  have t: "trace = length (traces s)"
    and s': "s' = s\<lparr>traces := traces s @ [Some (new_ctf_trace session subpath ?new)],
                  sessions := (sessions s)
                      (session \<mapsto> se\<lparr>session_ref := session_ref se + 1,
                                       ctf_traces_ht :=
                                         (subpath, length (traces s)) # ctf_traces_ht se\<rparr>),
                  last_relay_ctf_trace_id := ?new\<rparr>"
    by auto
  have inc: "last_relay_ctf_trace_id s < ?new"
    using assms(2) by (rule word64_less_inc)
  have old: "trace_id tr < ?new" if "trace_at s t = Some tr" for t tr
    using ids_boundedD [OF assms(3) that] inc by simp
  have at: "trace_at s' trace = Some (new_ctf_trace session subpath ?new)"
    by (simp add: s' t trace_at_def)
  have others: "trace_id tr < ?new" if "t \<noteq> trace \<and> trace_at s' t = Some tr" for t tr
  proof -
    from that have "trace_at s t = Some tr"
      by (auto simp: s' t trace_at_def nth_append split: if_splits)
    then show ?thesis by (rule old)
  qed
  have "ids_bounded s'"
    using assms(3) inc
    by (auto simp: ids_bounded_def list_all_iff s' new_ctf_trace_def split: option.splits)
  with at old others show ?thesis
    by (simp add: s')
qed

theorem trace_id_increases_below_wrap_witness:
  "\<exists>s'. ctf_trace_create example_env 0 ''b'' example_state = Inr (Some 1, s') \<and>
      trace_at s' 1 = Some (new_ctf_trace 0 ''b'' 2) \<and>
      last_relay_ctf_trace_id s' = 2 \<and>
      trace_at s' 0 = Some example_trace \<and> trace_id example_trace < 2 \<and>
      ids_bounded s'"
proof -
  define s' where "s' = example_state\<lparr>traces := traces example_state @
                 [Some (new_ctf_trace 0 ''b'' (last_relay_ctf_trace_id example_state + 1))],
             sessions := (sessions example_state)
                 (0 \<mapsto> example_session\<lparr>session_ref := session_ref example_session + 1,
                                    ctf_traces_ht :=
                                      (''b'', length (traces example_state)) #
                                      ctf_traces_ht example_session\<rparr>),
             last_relay_ctf_trace_id := last_relay_ctf_trace_id example_state + 1\<rparr>"
  have "ctf_trace_create example_env 0 ''b'' example_state =
      Inr (Some (length (traces example_state)), s')"
    unfolding s'_def
    by (rule ctf_trace_create_ok)
       (simp_all add: example_env_def example_state_def example_session_def)
  moreover have "length (traces example_state) = 1" by (simp add: example_state_def)
  ultimately have create: "ctf_trace_create example_env 0 ''b'' example_state = Inr (Some 1, s')"
    by (simp only:)
  have last: "last_relay_ctf_trace_id example_state + 1 = 2" by (simp add: example_state_def)
  have nowrap: "last_relay_ctf_trace_id example_state \<noteq> - 1" by (simp add: example_state_def)
  have bounded: "ids_bounded example_state"
    by (simp add: ids_bounded_def example_state_def example_trace_def)
  note inc = trace_id_increases_below_wrap [OF create nowrap bounded, unfolded last]
  from inc have new: "trace_at s' 1 = Some (new_ctf_trace 0 ''b'' 2)"
    by blast
  from inc have counter: "last_relay_ctf_trace_id s' = 2"
    by blast
  from inc example_trace_at have less: "trace_id example_trace < 2"
    by blast
  from inc have inv: "ids_bounded s'"
    by blast
  have old: "trace_at s' 0 = Some example_trace"
    by (simp add: s'_def trace_at_def example_state_def)
  from create new counter old less inv show ?thesis by blast
qed

lemma wrap_first:
  "ctf_trace_create example_env 0 ''a'' wrap_state =
     Inr (Some 0,
          wrap_state\<lparr>traces := [Some (new_ctf_trace 0 ''a'' (- 1))],
                     sessions := [0 \<mapsto> empty_session\<lparr>session_ref := 2,
                                                     ctf_traces_ht := [(''a'', 0)]\<rparr>],
                     last_relay_ctf_trace_id := - 1\<rparr>)"
proof -
  have "ctf_trace_create example_env 0 ''a'' wrap_state =
      Inr (Some (length (traces wrap_state)),
           wrap_state\<lparr>traces := traces wrap_state @
                 [Some (new_ctf_trace 0 ''a'' (last_relay_ctf_trace_id wrap_state + 1))],
             sessions := (sessions wrap_state)
                 (0 \<mapsto> empty_session\<lparr>session_ref := session_ref empty_session + 1,
                                    ctf_traces_ht :=
                                      (''a'', length (traces wrap_state)) #
                                      ctf_traces_ht empty_session\<rparr>),
             last_relay_ctf_trace_id := last_relay_ctf_trace_id wrap_state + 1\<rparr>)"
    by (rule ctf_trace_create_ok)
       (simp_all add: example_env_def wrap_state_def initial_state_def empty_session_def)
  then show ?thesis
    by (simp add: wrap_state_def initial_state_def empty_session_def numeral_2_eq_2)
qed

text \<open>
  Claim C6 as stated fails: of two traces created one after the other, the second does
  not always have the greater identifier. With the counter at \<open>2 ^ 64 - 2\<close> the first
  gets \<open>2 ^ 64 - 1\<close> and the second gets 0.
\<close>

theorem trace_id_wrap_counterexample:
  "\<not> (\<forall>env session subpath1 subpath2 s trace1 s1 trace2 s2 tr1 tr2.
        ctf_trace_create env session subpath1 s = Inr (Some trace1, s1) \<and>
        ctf_trace_create env session subpath2 s1 = Inr (Some trace2, s2) \<and>
        trace_at s2 trace1 = Some tr1 \<and> trace_at s2 trace2 = Some tr2 \<longrightarrow>
          trace_id tr1 < trace_id tr2)"
proof
  assume claim: "\<forall>env session subpath1 subpath2 s trace1 s1 trace2 s2 tr1 tr2.
        ctf_trace_create env session subpath1 s = Inr (Some trace1, s1) \<and>
        ctf_trace_create env session subpath2 s1 = Inr (Some trace2, s2) \<and>
        trace_at s2 trace1 = Some tr1 \<and> trace_at s2 trace2 = Some tr2 \<longrightarrow>
          trace_id tr1 < trace_id tr2"
  let ?s1 = "wrap_state\<lparr>traces := [Some (new_ctf_trace 0 ''a'' (- 1))],
                     sessions := [0 \<mapsto> empty_session\<lparr>session_ref := 2,
                                                     ctf_traces_ht := [(''a'', 0)]\<rparr>],
                     last_relay_ctf_trace_id := - 1\<rparr>"
  let ?se1 = "empty_session\<lparr>session_ref := 2, ctf_traces_ht := [(''a'', 0)]\<rparr>"
  let ?s2 = "?s1\<lparr>traces := traces ?s1 @
                 [Some (new_ctf_trace 0 ''b'' (last_relay_ctf_trace_id ?s1 + 1))],
             sessions := (sessions ?s1)
                 (0 \<mapsto> ?se1\<lparr>session_ref := session_ref ?se1 + 1,
                          ctf_traces_ht := (''b'', length (traces ?s1)) # ctf_traces_ht ?se1\<rparr>),
             last_relay_ctf_trace_id := last_relay_ctf_trace_id ?s1 + 1\<rparr>"
  have "ctf_trace_create example_env 0 ''b'' ?s1 = Inr (Some (length (traces ?s1)), ?s2)"
    by (rule ctf_trace_create_ok) (simp_all add: example_env_def empty_session_def)
  moreover have "length (traces ?s1) = 1" by simp
  ultimately have second: "ctf_trace_create example_env 0 ''b'' ?s1 = Inr (Some 1, ?s2)"
    by (simp only:)
  have a: "trace_at ?s2 0 = Some (new_ctf_trace 0 ''a'' (- 1))"
    by (simp add: trace_at_def)
  have b: "trace_at ?s2 1 = Some (new_ctf_trace 0 ''b'' 0)"
    by (simp add: trace_at_def)
  from claim [rule_format, OF conjI [OF wrap_first conjI [OF second conjI [OF a b]]]]
  have "trace_id (new_ctf_trace 0 ''a'' (- 1)) < trace_id (new_ctf_trace 0 ''b'' 0)" .
  then show False by (simp add: new_ctf_trace_def)
qed

section \<open>The error paths of trace creation\<close>

text \<open>
  Claim C10 fails on the code. When \<^verbatim>\<open>session_get\<close> fails, the \<^verbatim>\<open>error:\<close>
  label puts the only reference of a trace whose session pointer is still null, and
  \<open>ctf_trace_release\<close> reads the table through that pointer. When \<^verbatim>\<open>strdup\<close>
  fails, the release deletes a node that was never added, and the assertion on the
  result of \<^verbatim>\<open>lttng_ht_del\<close> fails.
\<close>

theorem ctf_trace_create_error_paths_fault:
  "ctf_trace_create example_env 0 ''ust/uid/1000/64-bit'' vanishing_state = Inl NullDereference \<and>
   ctf_trace_create (example_env\<lparr>strdup_succeeds := False\<rparr>) 0 ''ust/uid/1000/64-bit''
     initial_state = Inl AssertionFailure"
proof -
  have "ctf_trace_create_unpublished example_env 0 ''ust/uid/1000/64-bit'' vanishing_state =
      Inl NullDereference"
    by (rule ctf_trace_create_unpublished_session_vanishing
          [where se = "empty_session\<lparr>session_ref := 0\<rparr>"])
       (simp_all add: example_env_def vanishing_state_def initial_state_def)
  moreover have "ctf_trace_create_unpublished (example_env\<lparr>strdup_succeeds := False\<rparr>) 0
      ''ust/uid/1000/64-bit'' initial_state = Inl AssertionFailure"
    by (rule ctf_trace_create_unpublished_strdup_fails [where se = empty_session])
       (simp_all add: example_env_def initial_state_def empty_session_def)
  ultimately show ?thesis by (simp add: ctf_trace_create_def)
qed

section \<open>Looking a trace up or creating it\<close>

lemma one_caller_is_the_function:
  "run_schedule env session subpath [0, 0] ([Looking], s) =
     (case ctf_trace_get_by_path_or_create env session subpath s of
        Inl f \<Rightarrow> Inl f
      | Inr (r, s') \<Rightarrow> Inr ([Returned r], s'))"
proof (cases "ctf_trace_get_by_path session subpath s")
  case (Inl f)
  then show ?thesis
    by (simp add: caller_step_def ctf_trace_get_by_path_or_create_def)
next
  case (Inr found)
  obtain r s1 where found: "found = (r, s1)" by (cases found)
  show ?thesis
  proof (cases r)
    case None
    with Inr found show ?thesis
      by (simp add: caller_step_def ctf_trace_get_by_path_or_create_def
          split: sum.splits)
  next
    case (Some trace)
    with Inr found show ?thesis
      by (simp add: caller_step_def ctf_trace_get_by_path_or_create_def)
  qed
qed

lemma get_by_path_miss:
  assumes "sessions s session = Some se"
    and "lttng_ht_lookup (ctf_traces_ht se) subpath = None"
  shows "ctf_trace_get_by_path session subpath s = Inr (None, s)"
  using assms
  by (simp add: ctf_trace_get_by_path_def Let_def rcu_read_lock_def rcu_read_unlock_def)

lemma get_by_path_hit:
  assumes "sessions s session = Some se"
    and "lttng_ht_lookup (ctf_traces_ht se) subpath = Some trace"
    and "trace_at s trace = Some tr" and "0 < trace_ref tr"
  shows "ctf_trace_get_by_path session subpath s =
           Inr (Some trace, set_trace trace (tr\<lparr>trace_ref := trace_ref tr + 1\<rparr>) s)"
  using assms
  by (simp add: ctf_trace_get_by_path_def Let_def rcu_read_lock_def rcu_read_unlock_def
      ctf_trace_get_def urcu_ref_get_unless_zero_def set_trace_def)

lemma get_by_path_or_create_hit:
  assumes "sessions s session = Some se"
    and "lttng_ht_lookup (ctf_traces_ht se) subpath = Some trace"
    and "trace_at s trace = Some tr" and "0 < trace_ref tr"
  shows "ctf_trace_get_by_path_or_create env session subpath s =
           Inr (Some trace, set_trace trace (tr\<lparr>trace_ref := trace_ref tr + 1\<rparr>) s)"
  by (simp add: ctf_trace_get_by_path_or_create_def get_by_path_hit [OF assms])

lemma get_by_path_or_create_miss:
  assumes "sessions s session = Some se"
    and "lttng_ht_lookup (ctf_traces_ht se) subpath = None"
  shows "ctf_trace_get_by_path_or_create env session subpath s =
           ctf_trace_create env session subpath s"
  by (simp add: ctf_trace_get_by_path_or_create_def get_by_path_miss [OF assms])

lemma sequential_callers_hits:
  assumes "sessions s session = Some se"
    and "lttng_ht_lookup (ctf_traces_ht se) subpath = Some trace"
    and "trace_at s trace = Some tr" and "0 < trace_ref tr"
  shows "sequential_callers n env session subpath s =
           Inr (replicate n (Some trace),
                set_trace trace (tr\<lparr>trace_ref := trace_ref tr + n\<rparr>) s)"
  using assms
proof (induction n arbitrary: s tr)
  case 0
  then show ?case by (simp add: set_trace_same)
next
  case (Suc n)
  let ?tr = "tr\<lparr>trace_ref := trace_ref tr + 1\<rparr>"
  let ?s = "set_trace trace ?tr s"
  from Suc.prems(3) have len: "trace < length (traces s)" by (rule trace_at_Some_length)
  have "sequential_callers n env session subpath ?s =
      Inr (replicate n (Some trace), set_trace trace (?tr\<lparr>trace_ref := trace_ref ?tr + n\<rparr>) ?s)"
    using Suc.prems len by (intro Suc.IH) (simp_all add: trace_at_set_trace)
  then show ?case
    by (simp add: get_by_path_or_create_hit [OF Suc.prems] set_trace_def)
qed

lemma lookup_None_filter:
  "lttng_ht_lookup ht key = None \<Longrightarrow> filter (\<lambda>node. fst node = key) ht = []"
  by (auto simp: lttng_ht_lookup_def map_of_eq_None_iff filter_empty_conv)

text \<open>
  Claim C1, as amended. When the path is not in the table of a live session and memory
  is available, any number of calls made one after the other return the same trace: the
  first creates and publishes it, the later ones find it and take a reference each, and
  the table holds that one trace under the path.
\<close>

theorem sequential_callers_create_once:
  assumes "zmalloc_succeeds env" and "strdup_succeeds env"
    and "sessions s session = Some se" and "0 < session_ref se"
    and "lttng_ht_lookup (ctf_traces_ht se) subpath = None"
  shows "\<exists>s'. sequential_callers (Suc n) env session subpath s =
             Inr (replicate (Suc n) (Some (length (traces s))), s') \<and>
           published_for s' session subpath = [length (traces s)] \<and>
           length (traces s') = length (traces s) + 1 \<and>
           map_option trace_ref (trace_at s' (length (traces s))) = Some (Suc n)"
proof -
  let ?t = "length (traces s)"
  let ?tr = "new_ctf_trace session subpath (last_relay_ctf_trace_id s + 1)"
  let ?se1 = "se\<lparr>session_ref := session_ref se + 1,
                 ctf_traces_ht := (subpath, ?t) # ctf_traces_ht se\<rparr>"
  define s1 where "s1 = s\<lparr>traces := traces s @ [Some ?tr],
                  sessions := (sessions s)(session \<mapsto> ?se1),
                  last_relay_ctf_trace_id := last_relay_ctf_trace_id s + 1\<rparr>"
  have first: "ctf_trace_get_by_path_or_create env session subpath s = Inr (Some ?t, s1)"
    unfolding s1_def get_by_path_or_create_miss [OF assms(3,5)]
    by (rule ctf_trace_create_ok [OF assms(1-4)])
  have se1: "sessions s1 session = Some ?se1" by (simp add: s1_def)
  have hit: "lttng_ht_lookup (ctf_traces_ht ?se1) subpath = Some ?t"
    by (simp add: lttng_ht_lookup_def)
  have at: "trace_at s1 ?t = Some ?tr" by (simp add: s1_def trace_at_def)
  have live: "0 < trace_ref ?tr" by (simp add: new_ctf_trace_def)
  define s' where "s' = set_trace ?t (?tr\<lparr>trace_ref := trace_ref ?tr + n\<rparr>) s1"
  have rest: "sequential_callers n env session subpath s1 = Inr (replicate n (Some ?t), s')"
    unfolding s'_def by (rule sequential_callers_hits [OF se1 hit at live])
  from first rest
  have run: "sequential_callers (Suc n) env session subpath s =
      Inr (replicate (Suc n) (Some ?t), s')"
    by simp
  have pub: "published_for s' session subpath = [?t]"
    using lookup_None_filter [OF assms(5)]
    by (simp add: published_for_def s'_def s1_def set_trace_def)
  have len: "length (traces s') = ?t + 1"
    by (simp add: s'_def s1_def set_trace_def)
  have cnt: "map_option trace_ref (trace_at s' ?t) = Some (Suc n)"
    by (simp add: s'_def s1_def set_trace_def trace_at_def new_ctf_trace_def)
  from run pub len cnt show ?thesis by blast
qed

theorem sequential_callers_create_once_witness:
  "\<exists>s'. sequential_callers (Suc 15) example_env 0 ''ust/uid/1000/64-bit'' initial_state =
            Inr (replicate (Suc 15) (Some 0), s') \<and>
         published_for s' 0 ''ust/uid/1000/64-bit'' = [0] \<and>
         length (traces s') = 1 \<and>
         map_option trace_ref (trace_at s' 0) = Some (Suc 15)"
proof -
  have len: "length (traces initial_state) = 0" by (simp add: initial_state_def)
  have "\<exists>s'. sequential_callers (Suc 15) example_env 0 ''ust/uid/1000/64-bit'' initial_state =
             Inr (replicate (Suc 15) (Some (length (traces initial_state))), s') \<and>
           published_for s' 0 ''ust/uid/1000/64-bit'' = [length (traces initial_state)] \<and>
           length (traces s') = length (traces initial_state) + 1 \<and>
           map_option trace_ref (trace_at s' (length (traces initial_state))) = Some (Suc 15)"
    by (rule sequential_callers_create_once [where se = empty_session])
       (simp_all add: example_env_def initial_state_def empty_session_def lttng_ht_lookup_def)
  then show ?thesis unfolding len by simp
qed

lemma racing_lookups_miss:
  "ctf_trace_get_by_path 0 ''ust/uid/1000/64-bit'' initial_state = Inr (None, initial_state)"
  by (rule get_by_path_miss [where se = empty_session])
     (simp_all add: initial_state_def empty_session_def lttng_ht_lookup_def)

text \<open>
  Claim C1 as stated fails. \<open>ctf_trace_create\<close> does not look the path up again and
  takes no lock of the session: two callers whose lookups both run before either
  creates, each publish a trace of their own and return different objects.
\<close>

theorem racing_callers_counterexample:
  "(case run_schedule example_env 0 ''ust/uid/1000/64-bit'' [0, 1, 0, 1]
           ([Looking, Looking], initial_state) of
      Inl f \<Rightarrow> False
    | Inr (callers, s') \<Rightarrow>
        callers = [Returned (Some 0), Returned (Some 1)] \<and>
        published_for s' 0 ''ust/uid/1000/64-bit'' = [1, 0] \<and>
        length (traces s') = 2)"
proof -
  let ?p = "''ust/uid/1000/64-bit''"
  let ?se1 = "empty_session\<lparr>session_ref := session_ref empty_session + 1,
                 ctf_traces_ht :=
                   (?p, length (traces initial_state)) # ctf_traces_ht empty_session\<rparr>"
  define s1 where "s1 = initial_state\<lparr>traces := traces initial_state @
                 [Some (new_ctf_trace 0 ?p (last_relay_ctf_trace_id initial_state + 1))],
             sessions := (sessions initial_state)(0 \<mapsto> ?se1),
             last_relay_ctf_trace_id := last_relay_ctf_trace_id initial_state + 1\<rparr>"
  define s2 where "s2 = s1\<lparr>traces := traces s1 @
                 [Some (new_ctf_trace 0 ?p (last_relay_ctf_trace_id s1 + 1))],
             sessions := (sessions s1)
                 (0 \<mapsto> ?se1\<lparr>session_ref := session_ref ?se1 + 1,
                          ctf_traces_ht := (?p, length (traces s1)) # ctf_traces_ht ?se1\<rparr>),
             last_relay_ctf_trace_id := last_relay_ctf_trace_id s1 + 1\<rparr>"
  have "ctf_trace_create example_env 0 ?p initial_state =
      Inr (Some (length (traces initial_state)), s1)"
    unfolding s1_def
    by (rule ctf_trace_create_ok)
       (simp_all add: example_env_def initial_state_def empty_session_def)
  then have first: "ctf_trace_create example_env 0 ?p initial_state = Inr (Some 0, s1)"
    by (simp add: initial_state_def)
  have "ctf_trace_create example_env 0 ?p s1 = Inr (Some (length (traces s1)), s2)"
    unfolding s2_def
    by (rule ctf_trace_create_ok)
       (simp_all add: example_env_def s1_def empty_session_def)
  then have second: "ctf_trace_create example_env 0 ?p s1 = Inr (Some 1, s2)"
    by (simp add: s1_def initial_state_def)
  have run: "run_schedule example_env 0 ?p [0, 1, 0, 1] ([Looking, Looking], initial_state) =
      Inr ([Returned (Some 0), Returned (Some 1)], s2)"
    by (simp add: caller_step_def racing_lookups_miss first second)
  have pub: "published_for s2 0 ?p = [1, 0]"
    by (simp add: published_for_def s2_def s1_def initial_state_def empty_session_def)
  have len: "length (traces s2) = 2"
    by (simp add: s2_def s1_def initial_state_def)
  from run pub len show ?thesis by simp
qed

section \<open>Attaching a viewer session to a relay session\<close>

lemma viewer_session_attach_already:
  assumes "viewer_sessions s vsession = Some vs" and "sessions s session = Some se"
    and "session_lock se" and "0 < session_ref se" and "viewer_attached se"
  shows "viewer_session_attach env vsession session s = Inr (LTTNG_VIEWER_ATTACH_ALREADY, s)"
proof -
  have "(sessions s)(session \<mapsto> se) = sessions s"
    using assms(2) by (simp add: fun_upd_idem)
  then show ?thesis
    using assms
    by (simp add: viewer_session_attach_def session_get_def urcu_ref_get_unless_zero_def
        set_session_def session_put_def urcu_ref_put_def)
qed

lemma viewer_session_attach_ok:
  assumes "viewer_sessions s vsession = Some vs" and "sessions s session = Some se"
    and "session_lock se" and "0 < session_ref se" and "\<not> viewer_attached se"
    and "chunk_copy_succeeds env se"
  shows "viewer_session_attach env vsession session s =
           Inr (LTTNG_VIEWER_ATTACH_OK,
                s\<lparr>sessions := (sessions s)
                      (session \<mapsto> se\<lparr>session_ref := session_ref se + 1,
                                       viewer_attached := True\<rparr>),
                  viewer_sessions := (viewer_sessions s)
                      (vsession \<mapsto> vs\<lparr>viewer_trace_chunk := copied_chunk env se,
                                       session_list := session # session_list vs\<rparr>)\<rparr>)"
proof (cases "current_trace_chunk se")
  case None
  with assms show ?thesis
    by (simp add: viewer_session_attach_def session_get_def urcu_ref_get_unless_zero_def
        set_session_def Let_def viewer_session_set_trace_chunk_copy_def copied_chunk_def)
next
  case (Some chunk)
  with assms(6) obtain viewer_chunk where "lttng_trace_chunk_copy env chunk = Some viewer_chunk"
    by (auto simp: chunk_copy_succeeds_def)
  with Some assms show ?thesis
    by (simp add: viewer_session_attach_def session_get_def urcu_ref_get_unless_zero_def
        set_session_def Let_def viewer_session_set_trace_chunk_copy_def copied_chunk_def)
qed

lemma viewer_session_attach_unk:
  assumes "viewer_sessions s vsession = Some vs" and "sessions s session = Some se"
    and "session_lock se" and "0 < session_ref se" and "\<not> viewer_attached se"
    and "\<not> chunk_copy_succeeds env se"
  shows "viewer_session_attach env vsession session s =
           Inr (LTTNG_VIEWER_ATTACH_UNK,
                s\<lparr>sessions := (sessions s)(session \<mapsto> se\<lparr>viewer_attached := True\<rparr>),
                  viewer_sessions := (viewer_sessions s)
                      (vsession \<mapsto> vs\<lparr>viewer_trace_chunk := None\<rparr>)\<rparr>)"
proof -
  from assms(6) obtain chunk where
    "current_trace_chunk se = Some chunk" "lttng_trace_chunk_copy env chunk = None"
    by (auto simp: chunk_copy_succeeds_def split: option.splits)
  with assms show ?thesis
    by (simp add: viewer_session_attach_def session_get_def urcu_ref_get_unless_zero_def
        set_session_def Let_def viewer_session_set_trace_chunk_copy_def session_put_def
        urcu_ref_put_def)
qed

lemma viewer_session_detach_attached:
  assumes "viewer_sessions s vsession = Some vs" and "sessions s session = Some se"
    and "\<not> session_lock se" and "0 < session_ref se" and "viewer_attached se"
  shows "viewer_session_detach vsession session s =
           Inr (0,
                s\<lparr>sessions := (sessions s)
                      (session \<mapsto> se\<lparr>viewer_attached := False,
                                       session_ref := session_ref se - 1,
                                       session_lock := False\<rparr>),
                  viewer_sessions := cds_list_del_rcu session (viewer_sessions s)\<rparr>)"
  using assms
  by (simp add: viewer_session_detach_def session_mutex_lock_def session_mutex_unlock_def
      set_session_def Let_def session_put_def urcu_ref_put_def)

lemma attach_detach_attach:
  assumes vs: "viewer_sessions s vsession = Some vs" and se: "sessions s session = Some se"
    and locked: "session_lock se" and live: "0 < session_ref se"
    and fresh: "\<not> viewer_attached se" and copy: "chunk_copy_succeeds env se"
    and first: "viewer_session_attach env vsession session s = Inr (LTTNG_VIEWER_ATTACH_OK, s1)"
  shows "viewer_session_attach env vsession session s1 = Inr (LTTNG_VIEWER_ATTACH_ALREADY, s1) \<and>
         (\<exists>s2 s3 s4 s5.
            session_mutex_unlock session s1 = Inr s2 \<and>
            viewer_session_detach vsession session s2 = Inr (0, s3) \<and>
            map_option viewer_attached (sessions s3 session) = Some False \<and>
            map_option session_list (viewer_sessions s3 vsession) =
              Some (removeAll session (session_list vs)) \<and>
            session_mutex_lock session s3 = Inr s4 \<and>
            viewer_session_attach env vsession session s4 = Inr (LTTNG_VIEWER_ATTACH_OK, s5))"
proof -
  let ?se1 = "se\<lparr>session_ref := session_ref se + 1, viewer_attached := True\<rparr>"
  let ?vs1 = "vs\<lparr>viewer_trace_chunk := copied_chunk env se,
                 session_list := session # session_list vs\<rparr>"
  from first viewer_session_attach_ok [OF vs se locked live fresh copy]
  have s1: "s1 = s\<lparr>sessions := (sessions s)(session \<mapsto> ?se1),
                    viewer_sessions := (viewer_sessions s)(vsession \<mapsto> ?vs1)\<rparr>"
    by simp
  have vs1: "viewer_sessions s1 vsession = Some ?vs1" by (simp add: s1)
  have se1: "sessions s1 session = Some ?se1" by (simp add: s1)
  have again: "viewer_session_attach env vsession session s1 =
      Inr (LTTNG_VIEWER_ATTACH_ALREADY, s1)"
    using locked by (intro viewer_session_attach_already [OF vs1 se1]) simp_all
  let ?se2 = "?se1\<lparr>session_lock := False\<rparr>"
  define s2 where "s2 = set_session session ?se2 s1"
  have unlock: "session_mutex_unlock session s1 = Inr s2"
    by (simp add: session_mutex_unlock_def se1 s2_def)
  have vs2: "viewer_sessions s2 vsession = Some ?vs1" by (simp add: s2_def vs1)
  have se2: "sessions s2 session = Some ?se2" by (simp add: s2_def)
  let ?se3 = "?se2\<lparr>viewer_attached := False, session_ref := session_ref ?se2 - 1,
                    session_lock := False\<rparr>"
  define s3 where "s3 = s2\<lparr>sessions := (sessions s2)(session \<mapsto> ?se3),
                         viewer_sessions := cds_list_del_rcu session (viewer_sessions s2)\<rparr>"
  have detach: "viewer_session_detach vsession session s2 = Inr (0, s3)"
    unfolding s3_def by (rule viewer_session_detach_attached [OF vs2 se2]) simp_all
  have se3: "sessions s3 session = Some ?se3" by (simp add: s3_def)
  let ?vs3 = "?vs1\<lparr>session_list := removeAll session (session_list ?vs1)\<rparr>"
  have vs3: "viewer_sessions s3 vsession = Some ?vs3"
    by (simp add: s3_def cds_list_del_rcu_def vs2)
  let ?se4 = "?se3\<lparr>session_lock := True\<rparr>"
  define s4 where "s4 = set_session session ?se4 s3"
  have lock: "session_mutex_lock session s3 = Inr s4"
    by (simp add: session_mutex_lock_def se3 s4_def)
  have se4: "sessions s4 session = Some ?se4" by (simp add: s4_def)
  have vs4: "viewer_sessions s4 vsession = Some ?vs3" by (simp add: s4_def vs3)
  have copy4: "chunk_copy_succeeds env ?se4"
    using copy by (simp add: chunk_copy_succeeds_def)
  have pre4: "session_lock ?se4" "0 < session_ref ?se4" "\<not> viewer_attached ?se4"
    using live by simp_all
  from viewer_session_attach_ok [OF vs4 se4 pre4 copy4] obtain s5 where
    third: "viewer_session_attach env vsession session s4 = Inr (LTTNG_VIEWER_ATTACH_OK, s5)"
    by blast
  have flag3: "map_option viewer_attached (sessions s3 session) = Some False"
    by (simp add: se3)
  have list3: "map_option session_list (viewer_sessions s3 vsession) =
      Some (removeAll session (session_list vs))"
    by (simp add: vs3)
  from again unlock detach flag3 list3 lock third show ?thesis by blast
qed

text \<open>
  Claim C8. For a live session whose lock the caller holds, \<open>viewer_session_attach\<close>
  has one of three outcomes. If the session already has a viewer attached it returns
  ALREADY and the state is as before. If not, and the copy of the current trace chunk
  succeeds, it returns OK, sets the flag and links the session in the list of the viewer
  session; a second attach then returns ALREADY, and after the lock is released,
  \<open>viewer_session_detach\<close> has returned 0 and the lock is taken again, an attach
  returns OK again. If the copy fails, it returns UNK and the list is as before.
\<close>

theorem viewer_session_attach_outcomes:
  assumes "viewer_sessions s vsession = Some vs" and "sessions s session = Some se"
    and "session_lock se" and "0 < session_ref se"
  shows "(viewer_attached se \<longrightarrow>
            viewer_session_attach env vsession session s =
              Inr (LTTNG_VIEWER_ATTACH_ALREADY, s)) \<and>
         (\<not> viewer_attached se \<and> chunk_copy_succeeds env se \<longrightarrow>
            (\<exists>s1. viewer_session_attach env vsession session s =
                     Inr (LTTNG_VIEWER_ATTACH_OK, s1) \<and>
                   map_option viewer_attached (sessions s1 session) = Some True \<and>
                   map_option session_list (viewer_sessions s1 vsession) =
                     Some (session # session_list vs) \<and>
                   map_option viewer_trace_chunk (viewer_sessions s1 vsession) =
                     Some (copied_chunk env se) \<and>
                   viewer_session_attach env vsession session s1 =
                     Inr (LTTNG_VIEWER_ATTACH_ALREADY, s1) \<and>
                   (\<exists>s2 s3 s4 s5.
                      session_mutex_unlock session s1 = Inr s2 \<and>
                      viewer_session_detach vsession session s2 = Inr (0, s3) \<and>
                      map_option viewer_attached (sessions s3 session) = Some False \<and>
                      map_option session_list (viewer_sessions s3 vsession) =
                        Some (removeAll session (session_list vs)) \<and>
                      session_mutex_lock session s3 = Inr s4 \<and>
                      viewer_session_attach env vsession session s4 =
                        Inr (LTTNG_VIEWER_ATTACH_OK, s5)))) \<and>
         (\<not> viewer_attached se \<and> \<not> chunk_copy_succeeds env se \<longrightarrow>
            (\<exists>s1. viewer_session_attach env vsession session s =
                     Inr (LTTNG_VIEWER_ATTACH_UNK, s1) \<and>
                   map_option session_list (viewer_sessions s1 vsession) =
                     Some (session_list vs)))"
proof (intro conjI impI)
  assume "viewer_attached se"
  with assms show "viewer_session_attach env vsession session s =
      Inr (LTTNG_VIEWER_ATTACH_ALREADY, s)"
    by (intro viewer_session_attach_already)
next
  assume h: "\<not> viewer_attached se \<and> chunk_copy_succeeds env se"
  define s1 where "s1 = s\<lparr>sessions := (sessions s)
                      (session \<mapsto> se\<lparr>session_ref := session_ref se + 1,
                                       viewer_attached := True\<rparr>),
                  viewer_sessions := (viewer_sessions s)
                      (vsession \<mapsto> vs\<lparr>viewer_trace_chunk := copied_chunk env se,
                                       session_list := session # session_list vs\<rparr>)\<rparr>"
  have first: "viewer_session_attach env vsession session s = Inr (LTTNG_VIEWER_ATTACH_OK, s1)"
    unfolding s1_def using assms h by (intro viewer_session_attach_ok) simp_all
  have flag: "map_option viewer_attached (sessions s1 session) = Some True"
    by (simp add: s1_def)
  have list: "map_option session_list (viewer_sessions s1 vsession) =
      Some (session # session_list vs)"
    by (simp add: s1_def)
  have chunk: "map_option viewer_trace_chunk (viewer_sessions s1 vsession) =
      Some (copied_chunk env se)"
    by (simp add: s1_def)
  from h have fresh: "\<not> viewer_attached se" and copy: "chunk_copy_succeeds env se"
    by simp_all
  note rest = attach_detach_attach [OF assms fresh copy first]
  from first flag list chunk rest
  show "\<exists>s1. viewer_session_attach env vsession session s =
                     Inr (LTTNG_VIEWER_ATTACH_OK, s1) \<and>
                   map_option viewer_attached (sessions s1 session) = Some True \<and>
                   map_option session_list (viewer_sessions s1 vsession) =
                     Some (session # session_list vs) \<and>
                   map_option viewer_trace_chunk (viewer_sessions s1 vsession) =
                     Some (copied_chunk env se) \<and>
                   viewer_session_attach env vsession session s1 =
                     Inr (LTTNG_VIEWER_ATTACH_ALREADY, s1) \<and>
                   (\<exists>s2 s3 s4 s5.
                      session_mutex_unlock session s1 = Inr s2 \<and>
                      viewer_session_detach vsession session s2 = Inr (0, s3) \<and>
                      map_option viewer_attached (sessions s3 session) = Some False \<and>
                      map_option session_list (viewer_sessions s3 vsession) =
                        Some (removeAll session (session_list vs)) \<and>
                      session_mutex_lock session s3 = Inr s4 \<and>
                      viewer_session_attach env vsession session s4 =
                        Inr (LTTNG_VIEWER_ATTACH_OK, s5))"
    by blast
next
  assume h: "\<not> viewer_attached se \<and> \<not> chunk_copy_succeeds env se"
  with assms
  have "viewer_session_attach env vsession session s =
           Inr (LTTNG_VIEWER_ATTACH_UNK,
                s\<lparr>sessions := (sessions s)(session \<mapsto> se\<lparr>viewer_attached := True\<rparr>),
                  viewer_sessions := (viewer_sessions s)
                      (vsession \<mapsto> vs\<lparr>viewer_trace_chunk := None\<rparr>)\<rparr>)"
    by (intro viewer_session_attach_unk) simp_all
  then show "\<exists>s1. viewer_session_attach env vsession session s =
                     Inr (LTTNG_VIEWER_ATTACH_UNK, s1) \<and>
                   map_option session_list (viewer_sessions s1 vsession) =
                     Some (session_list vs)"
    by simp
qed

theorem viewer_session_attach_outcomes_witness:
  "(\<exists>s1. viewer_session_attach example_env 0 0 locked_state =
            Inr (LTTNG_VIEWER_ATTACH_OK, s1) \<and>
          map_option viewer_attached (sessions s1 0) = Some True \<and>
          map_option session_list (viewer_sessions s1 0) = Some [0] \<and>
          map_option viewer_trace_chunk (viewer_sessions s1 0) = Some (Some 8) \<and>
          viewer_session_attach example_env 0 0 s1 = Inr (LTTNG_VIEWER_ATTACH_ALREADY, s1) \<and>
          (\<exists>s2 s3 s4 s5.
             session_mutex_unlock 0 s1 = Inr s2 \<and>
             viewer_session_detach 0 0 s2 = Inr (0, s3) \<and>
             map_option viewer_attached (sessions s3 0) = Some False \<and>
             map_option session_list (viewer_sessions s3 0) = Some [] \<and>
             session_mutex_lock 0 s3 = Inr s4 \<and>
             viewer_session_attach example_env 0 0 s4 = Inr (LTTNG_VIEWER_ATTACH_OK, s5))) \<and>
   (\<exists>s1. viewer_session_attach failing_copy_env 0 0 locked_state =
            Inr (LTTNG_VIEWER_ATTACH_UNK, s1) \<and>
          map_option session_list (viewer_sessions s1 0) = Some [])"
proof -
  let ?vs = "\<lparr>viewer_trace_chunk = None, session_list = []\<rparr>"
  let ?se = "example_session\<lparr>session_lock := True\<rparr>"
  have vs: "viewer_sessions locked_state 0 = Some ?vs"
    by (simp add: locked_state_def set_session_def example_state_def)
  have se: "sessions locked_state 0 = Some ?se"
    by (simp add: locked_state_def set_session_def)
  have locked: "session_lock ?se" by simp
  have live: "0 < session_ref ?se" by (simp add: example_session_def)
  have fresh: "\<not> viewer_attached ?se" by (simp add: example_session_def)
  have copy: "chunk_copy_succeeds example_env ?se"
    by (simp add: chunk_copy_succeeds_def example_session_def example_env_def)
  have nocopy: "\<not> chunk_copy_succeeds failing_copy_env ?se"
    by (simp add: chunk_copy_succeeds_def example_session_def failing_copy_env_def)
  have chunk: "copied_chunk example_env ?se = Some 8"
    by (simp add: copied_chunk_def example_session_def example_env_def)
  have lists: "session_list ?vs = []" "removeAll (0::nat) (session_list ?vs) = []"
    by simp_all
  note ok = viewer_session_attach_outcomes [OF vs se locked live, of example_env,
      unfolded chunk lists]
  note unk = viewer_session_attach_outcomes [OF vs se locked live, of failing_copy_env,
      unfolded lists]
  from ok fresh copy
  have first: "\<exists>s1. viewer_session_attach example_env 0 0 locked_state =
            Inr (LTTNG_VIEWER_ATTACH_OK, s1) \<and>
          map_option viewer_attached (sessions s1 0) = Some True \<and>
          map_option session_list (viewer_sessions s1 0) = Some [0] \<and>
          map_option viewer_trace_chunk (viewer_sessions s1 0) = Some (Some 8) \<and>
          viewer_session_attach example_env 0 0 s1 = Inr (LTTNG_VIEWER_ATTACH_ALREADY, s1) \<and>
          (\<exists>s2 s3 s4 s5.
             session_mutex_unlock 0 s1 = Inr s2 \<and>
             viewer_session_detach 0 0 s2 = Inr (0, s3) \<and>
             map_option viewer_attached (sessions s3 0) = Some False \<and>
             map_option session_list (viewer_sessions s3 0) = Some [] \<and>
             session_mutex_lock 0 s3 = Inr s4 \<and>
             viewer_session_attach example_env 0 0 s4 = Inr (LTTNG_VIEWER_ATTACH_OK, s5))"
    by simp
  from unk fresh nocopy
  have second: "\<exists>s1. viewer_session_attach failing_copy_env 0 0 locked_state =
            Inr (LTTNG_VIEWER_ATTACH_UNK, s1) \<and>
          map_option session_list (viewer_sessions s1 0) = Some []"
    by blast
  from first second show ?thesis by (rule conjI)
qed

end
